theory Spec2Isabelle
  imports Main "HOL-Library.Word" "HOL-Library.Monad_Syntax"
begin

unbundle bit_operations_syntax

section \<open>Machine integers and configuration\<close>

text \<open>
  The firmware of \<^verbatim>\<open>IntegratedWaterMeterIoTSystem/src/main.c\<close> works on
  \<^verbatim>\<open>uint8_t\<close>, \<^verbatim>\<open>uint16_t\<close> and \<^verbatim>\<open>uint32_t\<close> values; they are words of that
  width.  Counters that stay far below their C range (\<^verbatim>\<open>rx_len\<close>, \<^verbatim>\<open>retry\<close>) are
  natural numbers.
\<close>

type_synonym u8 = "8 word"
type_synonym u16 = "16 word"
type_synonym u32 = "32 word"

definition MODBUS_SLAVE_ID :: u8 where
  "MODBUS_SLAVE_ID = 1"

definition MODBUS_RX_BUFFER :: nat where
  "MODBUS_RX_BUFFER = 256"

definition MODBUS_READ_INTERVAL_SEC :: nat where
  "MODBUS_READ_INTERVAL_SEC = 30"

text \<open>
  A C byte array is a function from index to byte; the declared size of the array is
  kept beside it, and every access of the model checks the index against that size.
\<close>

type_synonym buffer = "nat \<Rightarrow> u8"

section \<open>Modbus frame codec\<close>

text \<open>
  \<^verbatim>\<open>modbus_crc16\<close>: the inner loop runs \<open>j\<close> over eight shifts, the outer loop over the
  bytes \<^verbatim>\<open>data[0 .. length-1]\<close>, which the model receives as a list.
\<close>

fun crc_shift :: "nat \<Rightarrow> u16 \<Rightarrow> u16" where
  "crc_shift 0 crc = crc"
| "crc_shift (Suc j) crc =
     crc_shift j (if crc AND 0x0001 \<noteq> 0 then drop_bit 1 crc XOR 0xA001 else drop_bit 1 crc)"

fun crc_bytes :: "u16 \<Rightarrow> u8 list \<Rightarrow> u16" where
  "crc_bytes crc [] = crc"
| "crc_bytes crc (b # bs) = crc_bytes (crc_shift 8 (crc XOR ucast b)) bs"

definition modbus_crc16 :: "u8 list \<Rightarrow> u16" where
  "modbus_crc16 data = crc_bytes 0xFFFF data"

text \<open>
  \<^verbatim>\<open>build_read_cmd(buf, id)\<close> stores eight bytes into \<^verbatim>\<open>buf\<close>; the CRC is taken over
  \<^verbatim>\<open>buf[0..5]\<close> as they stand after the first six stores.
\<close>

definition build_read_cmd :: "buffer \<Rightarrow> u8 \<Rightarrow> buffer" where
  "build_read_cmd buf dev_id =
     (let buf = buf(0 := dev_id);
          buf = buf(1 := 0x03);
          buf = buf(2 := 0x00);
          buf = buf(3 := 0x01);
          buf = buf(4 := 0x00);
          buf = buf(5 := 0x26);
          crc = modbus_crc16 (map buf [0..<6]);
          buf = buf(6 := ucast (crc AND 0xFF));
          buf = buf(7 := ucast (drop_bit 8 crc AND 0xFF))
      in buf)"

text \<open>The eight bytes that \<^verbatim>\<open>read_meter_data\<close> then writes with \<^verbatim>\<open>uart_poll_out\<close>.\<close>

definition request_frame :: "buffer \<Rightarrow> u8 list" where
  "request_frame tx_buf = map (build_read_cmd tx_buf MODBUS_SLAVE_ID) [0..<8]"

text \<open>One shift of the reflected polynomial, named for the statements below.\<close>

definition crc_step :: "u16 \<Rightarrow> u16" where
  "crc_step crc = (if crc AND 0x0001 \<noteq> 0 then drop_bit 1 crc XOR 0xA001 else drop_bit 1 crc)"

section \<open>Meter data\<close>

record meter_data_t =
  flow_rate :: u32
  forward_total :: u32
  reverse_total :: u32
  pressure :: u16
  temperature :: u16
  status :: u16
  serial_number :: u32
  modbus_id :: u8
  baud_code :: u16
  valid :: bool

section \<open>Receiving the response\<close>

text \<open>
  The receive loop of \<^verbatim>\<open>read_meter_data\<close> (lines 203 to 220).  Its state is the
  receive buffer, the count \<^verbatim>\<open>rx_len\<close>, the time stamp \<^verbatim>\<open>last_byte\<close>, the value
  \<^verbatim>\<open>k_uptime_get_32()\<close> returns at this moment, and what the successive calls of
  \<^verbatim>\<open>uart_poll_in\<close> are going to return (\<open>None\<close>: no byte pending; past the end of the
  list nothing arrives any more).  The clock is a 32-bit millisecond counter that wraps;
  it advances in \<^verbatim>\<open>k_msleep\<close> only, by the time asked for.
\<close>

record rx_state =
  rx_buf :: buffer
  rx_len :: nat
  last_byte :: u32
  uptime :: u32
  uart_in :: "u8 option list"

fun uart_poll_in :: "u8 option list \<Rightarrow> u8 option \<times> u8 option list" where
  "uart_poll_in [] = (None, [])"
| "uart_poll_in (r # rs) = (r, rs)"

text \<open>
  What one pass through the loop body ends in: \<^verbatim>\<open>break\<close>, the next pass, or a store
  outside the array.
\<close>

datatype 'a iter = Break 'a | Continue 'a | Fault

text \<open>Lines 214 to 219: the idle cut-off, then \<^verbatim>\<open>k_msleep(5)\<close>.\<close>

definition idle_check :: "rx_state \<Rightarrow> rx_state iter" where
  "idle_check s =
     (if rx_len s > 3 \<and> uptime s - last_byte s > 150 then Break s
      else Continue (s\<lparr>uptime := uptime s + 5\<rparr>))"

definition recv_iter :: "rx_state \<Rightarrow> rx_state iter" where
  "recv_iter s =
     (case uart_poll_in (uart_in s) of
        (Some c, rest) \<Rightarrow>
          if rx_len s < MODBUS_RX_BUFFER then
            (let s1 = s\<lparr>uart_in := rest,
                          rx_buf := (rx_buf s)(rx_len s := c),
                          rx_len := rx_len s + 1,
                          last_byte := uptime s\<rparr>
             in if rx_len s1 \<ge> MODBUS_RX_BUFFER then Break s1 else idle_check s1)
          else Fault
      | (None, rest) \<Rightarrow> idle_check (s\<lparr>uart_in := rest\<rparr>))"

function recv_loop :: "u32 \<Rightarrow> rx_state \<Rightarrow> rx_state option" where
  "recv_loop start s =
     (if uptime s - start < 2000 then
        (case recv_iter s of
           Break s' \<Rightarrow> Some s'
         | Continue s' \<Rightarrow> recv_loop start s'
         | Fault \<Rightarrow> None)
      else Some s)"
  by pat_completeness auto
termination
proof (relation "measure (\<lambda>(start, s). 2000 - unat (uptime s - start))")
  show "wf (measure (\<lambda>(start, s). 2000 - unat (uptime s - start)))"
    by simp
next
  fix start :: u32 and s s' :: rx_state
  assume lt: "uptime s - start < 2000" and it: "recv_iter s = Continue s'"
  have "uptime s' = uptime s + 5"
    using it
    by (auto simp add: recv_iter_def idle_check_def Let_def
        split: prod.splits option.splits if_splits)
  then have eq: "uptime s' - start = (uptime s - start) + 5"
    by simp
  from lt have n: "unat (uptime s - start) < 2000"
    by (simp add: word_less_nat_alt)
  then have "unat ((uptime s - start) + 5) = unat (uptime s - start) + 5"
    by (simp add: unat_word_ariths)
  then have "unat (uptime s' - start) = unat (uptime s - start) + 5"
    by (simp only: eq)
  with n show "((start, s'), (start, s)) \<in> measure (\<lambda>(start, s). 2000 - unat (uptime s - start))"
    by simp
qed

declare recv_loop.simps [simp del]

section \<open>Validating and decoding the response\<close>

text \<open>
  A read of \<^verbatim>\<open>rx_buf[i]\<close>; \<open>None\<close> stands for an index outside the array.
  \<^verbatim>\<open>rd_bytes\<close> is the read of \<^verbatim>\<open>rx_buf[0 .. n-1]\<close> by \<^verbatim>\<open>modbus_crc16(rx_buf, n)\<close>.
\<close>

definition rd :: "buffer \<Rightarrow> nat \<Rightarrow> u8 option" where
  "rd buf i = (if i < MODBUS_RX_BUFFER then Some (buf i) else None)"

definition rd_bytes :: "buffer \<Rightarrow> nat \<Rightarrow> u8 list option" where
  "rd_bytes buf n = (if n \<le> MODBUS_RX_BUFFER then Some (map buf [0..<n]) else None)"

text \<open>\<^verbatim>\<open>read_u32(d, offset)\<close>, with \<open>d\<close> the accessor of the bytes behind a pointer.\<close>

definition read_u32 :: "(nat \<Rightarrow> u8 option) \<Rightarrow> nat \<Rightarrow> u32 option" where
  "read_u32 d offset = do {
     b0 \<leftarrow> d offset;
     b1 \<leftarrow> d (offset + 1);
     b2 \<leftarrow> d (offset + 2);
     b3 \<leftarrow> d (offset + 3);
     let low = (push_bit 8 (ucast b0) OR ucast b1 :: u32);
     let high = (push_bit 8 (ucast b2) OR ucast b3 :: u32);
     Some (push_bit 16 high OR low)
   }"

text \<open>Lines 250 to 262: the stores into the global \<^verbatim>\<open>meter_data\<close>.\<close>

definition parse_meter_data :: "(nat \<Rightarrow> u8 option) \<Rightarrow> meter_data_t \<Rightarrow> meter_data_t option" where
  "parse_meter_data d md = do {
     flow \<leftarrow> read_u32 d 0;
     fwd \<leftarrow> read_u32 d 12;
     rev \<leftarrow> read_u32 d 18;
     p_hi \<leftarrow> d 36; p_lo \<leftarrow> d 37;
     t_hi \<leftarrow> d 58; t_lo \<leftarrow> d 59;
     s_hi \<leftarrow> d 38; s_lo \<leftarrow> d 39;
     n0 \<leftarrow> d 64; n1 \<leftarrow> d 65; n2 \<leftarrow> d 66; n3 \<leftarrow> d 67;
     mid \<leftarrow> d 69;
     b_hi \<leftarrow> d 72; b_lo \<leftarrow> d 73;
     Some (md\<lparr>flow_rate := flow,
              forward_total := fwd,
              reverse_total := rev,
              pressure := push_bit 8 (ucast p_hi) OR ucast p_lo,
              temperature := push_bit 8 (ucast t_hi) OR ucast t_lo,
              status := push_bit 8 (ucast s_hi) OR ucast s_lo,
              serial_number := push_bit 24 (ucast n0) OR push_bit 16 (ucast n1)
                                 OR push_bit 8 (ucast n2) OR ucast n3,
              modbus_id := mid,
              baud_code := push_bit 8 (ucast b_hi) OR ucast b_lo,
              valid := True\<rparr>)
   }"

text \<open>The three warnings and the success message that \<^verbatim>\<open>read_meter_data\<close> logs.\<close>

datatype read_log =
    Incomplete_response nat
  | CRC_error u16 u16
  | Invalid_response_header
  | Meter_data_read_successfully

text \<open>
  Lines 226 to 265, on the buffer and the count the loop leaves: the value returned,
  the line logged, and the global \<^verbatim>\<open>meter_data\<close> afterwards.
\<close>

definition validate_response ::
  "buffer \<Rightarrow> nat \<Rightarrow> meter_data_t \<Rightarrow> (int \<times> read_log \<times> meter_data_t) option" where
  "validate_response buf n md =
     (if n < 70 then Some (- 1, Incomplete_response n, md\<lparr>valid := False\<rparr>)
      else do {
        c_lo \<leftarrow> rd buf (n - 2);
        c_hi \<leftarrow> rd buf (n - 1);
        let recv_crc = (ucast c_lo OR push_bit 8 (ucast c_hi) :: u16);
        bytes \<leftarrow> rd_bytes buf (n - 2);
        let calc_crc = modbus_crc16 bytes;
        if recv_crc \<noteq> calc_crc then Some (- 1, CRC_error recv_crc calc_crc, md\<lparr>valid := False\<rparr>)
        else do {
          b0 \<leftarrow> rd buf 0;
          b1 \<leftarrow> rd buf 1;
          if b0 \<noteq> MODBUS_SLAVE_ID \<or> b1 \<noteq> 0x03
          then Some (- 1, Invalid_response_header, md\<lparr>valid := False\<rparr>)
          else do {
            md' \<leftarrow> parse_meter_data (\<lambda>i. rd buf (3 + i)) md;
            Some (0, Meter_data_read_successfully, md')
          }
        }
      })"

text \<open>
  \<^verbatim>\<open>read_meter_data\<close>.  The environment of one call: the uptime on entry, the replies
  of the UART, and the indeterminate content of the two local arrays.  The request of
  \<^verbatim>\<open>request_frame\<close> goes out, \<^verbatim>\<open>k_msleep(100)\<close> passes, the loop runs, and the
  response is validated.
\<close>

record read_env =
  entry_uptime :: u32
  uart_replies :: "u8 option list"
  stack_tx :: buffer
  stack_rx :: buffer

definition read_meter_data ::
  "read_env \<Rightarrow> meter_data_t \<Rightarrow> (int \<times> read_log \<times> meter_data_t) option" where
  "read_meter_data env md =
     (let start = entry_uptime env + 100;
          s0 = \<lparr>rx_buf = stack_rx env, rx_len = 0, last_byte = start, uptime = start,
                uart_in = uart_replies env\<rparr>
      in do {
        s \<leftarrow> recv_loop start s0;
        validate_response (rx_buf s) (rx_len s) md
      })"

section \<open>Connectivity\<close>

text \<open>
  The errno constants come from the platform headers and their numbers are not part of
  the repository; a returned \<^verbatim>\<open>-ENOTCONN\<close> is \<open>Neg ENOTCONN\<close>, a returned integer
  \<open>rc\<close> is \<open>Ret rc\<close>.
\<close>

datatype errno = ENODEV | EINVAL | ETIMEDOUT | ECONNREFUSED | ENOTCONN

datatype retval = Ret int | Neg errno

datatype net_event =
    NET_EVENT_WIFI_CONNECT_RESULT int
  | NET_EVENT_WIFI_DISCONNECT_RESULT
  | NET_EVENT_IPV4_ADDR_ADD
  | NET_EVENT_other

datatype mqtt_evt =
    MQTT_EVT_CONNACK int
  | MQTT_EVT_DISCONNECT
  | MQTT_EVT_PUBACK nat
  | MQTT_EVT_other

text \<open>
  The JSON objects of \<^verbatim>\<open>snprintf\<close> are kept as the list of their keys and values in
  the order of the format string; the constructor records the conversion
  (\<^verbatim>\<open>%u\<close>, \<^verbatim>\<open>%d\<close>, \<^verbatim>\<open>%s\<close>, \<^verbatim>\<open>%08X\<close>).
\<close>

datatype json = JUnsigned nat | JSigned int | JString string | JHex8 u32

text \<open>The calls into the platform, in the order they are made, with the time asked for
  in milliseconds.\<close>

datatype action =
    Wifi_connect_request
  | Sleep nat
  | Mqtt_connect
  | Poll nat int
  | Mqtt_input
  | Mqtt_disconnect
  | Mqtt_live
  | Mqtt_publish string "(string \<times> json) list"
  | Log_status string

text \<open>
  The global variables: the flag \<^verbatim>\<open>mqtt_connected\<close>, the counts of the two semaphores
  (\<^verbatim>\<open>K_SEM_DEFINE(_, 0, 1)\<close>), \<^verbatim>\<open>meter_data\<close>, the static \<^verbatim>\<open>attrs_sent\<close> and the
  \<^verbatim>\<open>loop_count\<close> of \<^verbatim>\<open>main\<close>; \<open>trace\<close> collects the platform calls.
\<close>

record globals =
  mqtt_connected :: bool
  wifi_connected :: nat
  ipv4_obtained :: nat
  meter_data :: meter_data_t
  attrs_sent :: bool
  loop_count :: nat
  trace :: "action list"

definition emit :: "action \<Rightarrow> globals \<Rightarrow> globals" where
  "emit a g = g\<lparr>trace := trace g @ [a]\<rparr>"

definition k_sem_give :: "nat \<Rightarrow> nat" where
  "k_sem_give c = (if c < 1 then c + 1 else c)"

fun wifi_event_handler :: "net_event \<Rightarrow> globals \<Rightarrow> globals" where
  "wifi_event_handler (NET_EVENT_WIFI_CONNECT_RESULT conn_status) g =
     (if conn_status = 0 then g\<lparr>wifi_connected := k_sem_give (wifi_connected g)\<rparr> else g)"
| "wifi_event_handler NET_EVENT_WIFI_DISCONNECT_RESULT g =
     g\<lparr>mqtt_connected := False, wifi_connected := 0, ipv4_obtained := 0\<rparr>"
| "wifi_event_handler _ g = g"

fun ipv4_event_handler :: "net_event \<Rightarrow> globals \<Rightarrow> globals" where
  "ipv4_event_handler NET_EVENT_IPV4_ADDR_ADD g = g\<lparr>ipv4_obtained := k_sem_give (ipv4_obtained g)\<rparr>"
| "ipv4_event_handler _ g = g"

fun mqtt_evt_handler :: "mqtt_evt \<Rightarrow> globals \<Rightarrow> globals" where
  "mqtt_evt_handler (MQTT_EVT_CONNACK result) g =
     (if result \<noteq> 0 then g\<lparr>mqtt_connected := False\<rparr> else g\<lparr>mqtt_connected := True\<rparr>)"
| "mqtt_evt_handler MQTT_EVT_DISCONNECT g = g\<lparr>mqtt_connected := False\<rparr>"
| "mqtt_evt_handler (MQTT_EVT_PUBACK msg_id) g = g"
| "mqtt_evt_handler MQTT_EVT_other g = g"

text \<open>
  The two callbacks registered with \<^verbatim>\<open>net_mgmt\<close>, and the step of the event handlers
  on one notification of either collaborator.
\<close>

definition net_deliver :: "net_event \<Rightarrow> globals \<Rightarrow> globals" where
  "net_deliver e g = ipv4_event_handler e (wifi_event_handler e g)"

datatype event = Net net_event | Mqtt mqtt_evt

fun handle :: "globals \<Rightarrow> event \<Rightarrow> globals" where
  "handle g (Net e) = net_deliver e g"
| "handle g (Mqtt e) = mqtt_evt_handler e g"

definition run_events :: "globals \<Rightarrow> event list \<Rightarrow> globals" where
  "run_events g evs = foldl handle g evs"

text \<open>
  \<^verbatim>\<open>k_sem_take\<close> with a timeout: the notifications of the argument arrive before the
  call returns; it succeeds, taking the count down, iff the count is positive then.
\<close>

definition k_sem_take_wifi_connected :: "net_event list \<Rightarrow> globals \<Rightarrow> bool \<times> globals" where
  "k_sem_take_wifi_connected evs g =
     (let g1 = foldl (\<lambda>g e. net_deliver e g) g evs
      in if wifi_connected g1 > 0 then (True, g1\<lparr>wifi_connected := wifi_connected g1 - 1\<rparr>)
         else (False, g1))"

definition k_sem_take_ipv4_obtained :: "net_event list \<Rightarrow> globals \<Rightarrow> bool \<times> globals" where
  "k_sem_take_ipv4_obtained evs g =
     (let g1 = foldl (\<lambda>g e. net_deliver e g) g evs
      in if ipv4_obtained g1 > 0 then (True, g1\<lparr>ipv4_obtained := ipv4_obtained g1 - 1\<rparr>)
         else (False, g1))"

text \<open>
  \<^verbatim>\<open>wifi_connect\<close>.  One attempt of the environment: what the connect request returns
  and the notifications that arrive during each of the two waits.
\<close>

record wifi_attempt =
  request_ret :: int
  link_events :: "net_event list"
  addr_events :: "net_event list"

record wifi_env =
  iface_found :: bool
  attempts :: "nat \<Rightarrow> wifi_attempt"

text \<open>The body of the retry loop (lines 335 to 367); \<open>True\<close> is the \<^verbatim>\<open>return 0\<close>.\<close>

definition wifi_try :: "wifi_attempt \<Rightarrow> globals \<Rightarrow> bool \<times> globals" where
  "wifi_try a g =
     (let g1 = emit Wifi_connect_request (g\<lparr>wifi_connected := 0, ipv4_obtained := 0\<rparr>)
      in if request_ret a \<noteq> 0 then (False, emit (Sleep 5000) g1)
         else case k_sem_take_wifi_connected (link_events a) g1 of
           (False, g2) \<Rightarrow> (False, emit (Sleep 5000) g2)
         | (True, g2) \<Rightarrow>
             (case k_sem_take_ipv4_obtained (addr_events a) g2 of
                (False, g3) \<Rightarrow> (False, emit (Sleep 5000) g3)
              | (True, g3) \<Rightarrow> (True, g3)))"

function wifi_retry_loop :: "(nat \<Rightarrow> wifi_attempt) \<Rightarrow> nat \<Rightarrow> globals \<Rightarrow> retval \<times> globals" where
  "wifi_retry_loop env retry g =
     (if retry < 10 then
        (case wifi_try (env retry) g of
           (True, g') \<Rightarrow> (Ret 0, g')
         | (False, g') \<Rightarrow> wifi_retry_loop env (retry + 1) g')
      else (Neg ETIMEDOUT, g))"
  by pat_completeness auto
termination
  by (relation "measure (\<lambda>(env, retry, g). 10 - retry)") auto

declare wifi_retry_loop.simps [simp del]

definition wifi_connect :: "wifi_env \<Rightarrow> globals \<Rightarrow> retval \<times> globals" where
  "wifi_connect env g =
     (if \<not> iface_found env then (Neg ENODEV, g) else wifi_retry_loop (attempts env) 0 g)"

definition broker_init :: "bool \<Rightarrow> retval" where
  "broker_init resolved = (if \<not> resolved then Neg EINVAL else Ret 0)"

text \<open>
  \<^verbatim>\<open>thingsboard_connect\<close>.  One slice of the wait for the CONNACK: what
  \<^verbatim>\<open>zsock_poll\<close> returns, whether \<^verbatim>\<open>ZSOCK_POLLIN\<close> is set, and the events that
  \<^verbatim>\<open>mqtt_input\<close> hands to the event handler.  One attempt: what \<^verbatim>\<open>mqtt_connect\<close>
  returns, the slices, the socket descriptor at clean-up and the events that
  \<^verbatim>\<open>mqtt_disconnect\<close> raises.
\<close>

record poll_slice =
  poll_ret :: int
  pollin :: bool
  input_events :: "mqtt_evt list"

record tb_attempt =
  connect_ret :: int
  slices :: "nat \<Rightarrow> poll_slice"
  sock :: int
  disconnect_events :: "mqtt_evt list"

definition mqtt_input :: "mqtt_evt list \<Rightarrow> globals \<Rightarrow> globals" where
  "mqtt_input evs g = foldl (\<lambda>g e. mqtt_evt_handler e g) (emit Mqtt_input g) evs"

definition mqtt_disconnect :: "mqtt_evt list \<Rightarrow> globals \<Rightarrow> globals" where
  "mqtt_disconnect evs g = foldl (\<lambda>g e. mqtt_evt_handler e g) (emit Mqtt_disconnect g) evs"

text \<open>The inner loop \<^verbatim>\<open>while (timeout > 0)\<close>; \<open>i\<close> counts the slices.\<close>

function connack_wait :: "(nat \<Rightarrow> poll_slice) \<Rightarrow> nat \<Rightarrow> int \<Rightarrow> globals \<Rightarrow> bool \<times> globals" where
  "connack_wait sl i timeout g =
     (if timeout > 0 then
        (let p = sl i;
             g1 = emit (Poll 500 (poll_ret p)) g;
             g2 = (if poll_ret p > 0 \<and> pollin p then mqtt_input (input_events p) g1 else g1)
         in if mqtt_connected g2 then (True, g2)
            else connack_wait sl (i + 1) (timeout - 500) (emit (Sleep 500) g2))
      else (False, g))"
  by pat_completeness auto
termination
  by (relation "measure (\<lambda>(sl, i, timeout, g). nat timeout)") auto

declare connack_wait.simps [simp del]

text \<open>
  The body of \<^verbatim>\<open>while (retry < 5)\<close> (lines 466 to 500), \<^verbatim>\<open>goto cleanup\<close> included;
  \<open>True\<close> is the \<^verbatim>\<open>return 0\<close>.
\<close>

definition tb_try :: "tb_attempt \<Rightarrow> globals \<Rightarrow> bool \<times> globals" where
  "tb_try a g =
     (case (if connect_ret a \<noteq> 0 then (False, emit Mqtt_connect g)
            else connack_wait (slices a) 0 5000 (emit Mqtt_connect g)) of
        (True, g2) \<Rightarrow> (True, g2)
      | (False, g2) \<Rightarrow>
          (False, emit (Sleep 2000)
                    (if sock a \<ge> 0 then mqtt_disconnect (disconnect_events a) g2 else g2)))"

function tb_retry_loop :: "(nat \<Rightarrow> tb_attempt) \<Rightarrow> nat \<Rightarrow> globals \<Rightarrow> retval \<times> globals" where
  "tb_retry_loop env retry g =
     (if retry < 5 then
        (case tb_try (env retry) g of
           (True, g') \<Rightarrow> (Ret 0, g')
         | (False, g') \<Rightarrow> tb_retry_loop env (retry + 1) g')
      else (Neg ECONNREFUSED, g))"
  by pat_completeness auto
termination
  by (relation "measure (\<lambda>(env, retry, g). 5 - retry)") auto

declare tb_retry_loop.simps [simp del]

definition thingsboard_connect :: "(nat \<Rightarrow> tb_attempt) \<Rightarrow> globals \<Rightarrow> retval \<times> globals" where
  "thingsboard_connect env g = tb_retry_loop env 0 g"

section \<open>Telemetry publisher\<close>

definition TELEMETRY_TOPIC :: string where
  "TELEMETRY_TOPIC = ''v1/devices/me/telemetry''"

definition ATTRIBUTES_TOPIC :: string where
  "ATTRIBUTES_TOPIC = ''v1/devices/me/attributes''"

text \<open>\<^verbatim>\<open>send_telemetry\<close>; \<open>publish_rc\<close> is what \<^verbatim>\<open>mqtt_publish\<close> returns.\<close>

definition telemetry_payload :: "meter_data_t \<Rightarrow> (string \<times> json) list" where
  "telemetry_payload m =
     [(''flowRate'', JUnsigned (unat (flow_rate m))),
      (''forwardTotal'', JUnsigned (unat (forward_total m))),
      (''reverseTotal'', JUnsigned (unat (reverse_total m))),
      (''pressure'', JUnsigned (unat (pressure m))),
      (''temperature'', JUnsigned (unat (temperature m))),
      (''status'', JUnsigned (unat (status m))),
      (''leak'', JSigned (if status m AND 0x0004 \<noteq> 0 then 1 else 0)),
      (''empty'', JSigned (if status m AND 0x0004 \<noteq> 0 then 1 else 0)),
      (''lowBattery'', JSigned (if status m AND 0x0020 \<noteq> 0 then 1 else 0))]"

definition send_telemetry :: "int \<Rightarrow> globals \<Rightarrow> retval \<times> globals" where
  "send_telemetry publish_rc g =
     (if \<not> mqtt_connected g then (Neg ENOTCONN, g)
      else if \<not> valid (meter_data g) then (Neg EINVAL, g)
      else (Ret publish_rc,
            emit (Mqtt_publish TELEMETRY_TOPIC (telemetry_payload (meter_data g))) g))"

definition baud_str :: "u16 \<Rightarrow> string" where
  "baud_str code =
     (if code = 0 then ''9600''
      else if code = 1 then ''2400''
      else if code = 2 then ''4800''
      else if code = 3 then ''1200''
      else ''unknown'')"

definition attributes_payload :: "meter_data_t \<Rightarrow> (string \<times> json) list" where
  "attributes_payload m =
     [(''firmwareVersion'', JString ''2.0.0''),
      (''deviceModel'', JString ''BOVE-Modbus-Meter''),
      (''serialNumber'', JHex8 (serial_number m)),
      (''modbusId'', JUnsigned (unat (modbus_id m))),
      (''baudRate'', JString (baud_str (baud_code m)))]"

definition send_attributes :: "int \<Rightarrow> globals \<Rightarrow> retval \<times> globals" where
  "send_attributes publish_rc g =
     (if \<not> mqtt_connected g then (Neg ENOTCONN, g)
      else (Ret publish_rc,
            emit (Mqtt_publish ATTRIBUTES_TOPIC (attributes_payload (meter_data g))) g))"

definition mqtt_maintenance :: "mqtt_evt list \<Rightarrow> globals \<Rightarrow> globals" where
  "mqtt_maintenance evs g = (if mqtt_connected g then emit Mqtt_live (mqtt_input evs g) else g)"

section \<open>The main program\<close>

text \<open>The status text of the meter data log (lines 722 to 725).\<close>

definition status_summary :: "u16 \<Rightarrow> string" where
  "status_summary st =
     (if st = 0 then ''(Normal)''
      else if st AND 0x0004 \<noteq> 0 then ''(Empty!)''
      else if st AND 0x0020 \<noteq> 0 then ''(Low Battery!)''
      else [])"

definition initial_meter_data :: meter_data_t where
  "initial_meter_data =
     \<lparr>flow_rate = 0, forward_total = 0, reverse_total = 0, pressure = 0, temperature = 0,
      status = 0, serial_number = 0, modbus_id = 0, baud_code = 0, valid = False\<rparr>"

definition initial_globals :: globals where
  "initial_globals =
     \<lparr>mqtt_connected = False, wifi_connected = 0, ipv4_obtained = 0,
      meter_data = initial_meter_data, attrs_sent = False, loop_count = 0, trace = []\<rparr>"

text \<open>
  The loop of \<^verbatim>\<open>main\<close> around \<^verbatim>\<open>wifi_connect\<close> (lines 641 to 653), entered with
  \<^verbatim>\<open>wifi_retry_count\<close> below 3 and written from its body on; the value is \<^verbatim>\<open>ret\<close> at
  the exit.
\<close>

function main_wifi_loop :: "(nat \<Rightarrow> wifi_env) \<Rightarrow> nat \<Rightarrow> globals \<Rightarrow> retval \<times> globals" where
  "main_wifi_loop envs wifi_retry_count g =
     (case wifi_connect (envs wifi_retry_count) g of
        (ret, g1) \<Rightarrow>
          if ret = Ret 0 then (ret, g1)
          else if wifi_retry_count + 1 < 3
            then main_wifi_loop envs (wifi_retry_count + 1) (emit (Sleep 10000) g1)
            else (ret, g1))"
  by pat_completeness auto
termination
  by (relation "measure (\<lambda>(envs, wifi_retry_count, g). 3 - wifi_retry_count)") auto

declare main_wifi_loop.simps [simp del]

record boot_env =
  uart_ready :: bool
  boot_wifi :: "nat \<Rightarrow> wifi_env"
  boot_resolved :: bool
  boot_tb :: "nat \<Rightarrow> tb_attempt"

text \<open>\<^verbatim>\<open>main\<close> up to its loop: the process has returned, or it goes on into the loop.\<close>

datatype 'a process = Exited int | Running 'a

definition main_init :: "boot_env \<Rightarrow> globals process" where
  "main_init env =
     (let g = emit (Sleep 2000) initial_globals
      in if \<not> uart_ready env then Exited (- 1)
         else case main_wifi_loop (boot_wifi env) 0 g of
           (ret, g1) \<Rightarrow>
             if ret \<noteq> Ret 0 then Running g1
             else if broker_init (boot_resolved env) \<noteq> Ret 0 then Running (emit (Sleep 1000) g1)
             else Running (snd (thingsboard_connect (boot_tb env)
                                  (emit (Sleep 1000) (emit (Sleep 1000) g1)))))"

text \<open>
  One pass of \<^verbatim>\<open>while (1)\<close>.  The environment of the pass: the network notifications
  that arrived since the pass before, the environments of a reconnection, of
  \<^verbatim>\<open>read_meter_data\<close>, of the two publishes and of \<^verbatim>\<open>mqtt_maintenance\<close>.
\<close>

record cycle_env =
  net_events :: "net_event list"
  re_wifi :: wifi_env
  re_resolved :: bool
  re_tb :: "nat \<Rightarrow> tb_attempt"
  meter_env :: read_env
  attributes_rc :: int
  telemetry_rc :: int
  maintenance_events :: "mqtt_evt list"

definition reconnect :: "cycle_env \<Rightarrow> globals \<Rightarrow> globals" where
  "reconnect env g =
     (case wifi_connect (re_wifi env) g of
        (ret, g1) \<Rightarrow>
          if ret = Ret 0 then
            (if broker_init (re_resolved env) = Ret 0
             then snd (thingsboard_connect (re_tb env) (emit (Sleep 1000) (emit (Sleep 1000) g1)))
             else emit (Sleep 1000) g1)
          else g1)"

definition publish_cycle :: "cycle_env \<Rightarrow> globals \<Rightarrow> globals" where
  "publish_cycle env g =
     (let g1 = emit (Log_status (status_summary (status (meter_data g)))) g;
          g2 = (if \<not> attrs_sent g1 \<and> mqtt_connected g1
                then (snd (send_attributes (attributes_rc env) g1))\<lparr>attrs_sent := True\<rparr>
                else g1)
      in if mqtt_connected g2 then snd (send_telemetry (telemetry_rc env) g2) else g2)"

definition main_cycle :: "cycle_env \<Rightarrow> globals \<Rightarrow> globals option" where
  "main_cycle env g0 =
     (let g = foldl (\<lambda>g e. net_deliver e g) g0 (net_events env);
          g = g\<lparr>loop_count := loop_count g + 1\<rparr>;
          g = (if loop_count g mod 10 = 0 \<and> \<not> mqtt_connected g then reconnect env g else g)
      in case read_meter_data (meter_env env) (meter_data g) of
           None \<Rightarrow> None
         | Some (ret, lg, md) \<Rightarrow>
             (let g = g\<lparr>meter_data := md\<rparr>;
                  g = (if ret = 0 \<and> valid (meter_data g) then publish_cycle env g else g);
                  g = (if mqtt_connected g then mqtt_maintenance (maintenance_events env) g else g)
              in Some (emit (Sleep (MODBUS_READ_INTERVAL_SEC * 1000)) g)))"

text \<open>
  The state in which a pass calls \<^verbatim>\<open>read_meter_data\<close>: the pass as far as the
  \<^verbatim>\<open>loop_count++\<close> and the reconnection of every tenth pass (lines 684 to 702), the first
  three bindings of \<open>main_cycle\<close>.
\<close>

definition connectivity_check :: "cycle_env \<Rightarrow> globals \<Rightarrow> globals" where
  "connectivity_check env g0 =
     (let g = foldl (\<lambda>g e. net_deliver e g) g0 (net_events env);
          g = g\<lparr>loop_count := loop_count g + 1\<rparr>
      in if loop_count g mod 10 = 0 \<and> \<not> mqtt_connected g then reconnect env g else g)"

fun main_cycles :: "cycle_env list \<Rightarrow> globals \<Rightarrow> globals option" where
  "main_cycles [] g = Some g"
| "main_cycles (env # envs) g =
     (case main_cycle env g of None \<Rightarrow> None | Some g' \<Rightarrow> main_cycles envs g')"

section \<open>Observing the platform calls\<close>

text \<open>A publish of the device attributes.\<close>

fun is_attributes_publish :: "action \<Rightarrow> bool" where
  "is_attributes_publish (Mqtt_publish topic payload) = (topic = ATTRIBUTES_TOPIC)"
| "is_attributes_publish _ = False"

text \<open>The flag \<^verbatim>\<open>attrs_sent\<close> together with the attribute publishes made so far.\<close>

definition attributes_log :: "globals \<Rightarrow> bool \<times> action list" where
  "attributes_log g = (attrs_sent g, filter is_attributes_publish (trace g))"

text \<open>
  The time a call keeps the caller for certain: a sleep for the time asked, a poll that
  returns 0 for its whole time-out, since 0 is what \<^verbatim>\<open>zsock_poll\<close> returns when the
  time-out has run out with no event.
\<close>

fun blocked_ms :: "action \<Rightarrow> nat" where
  "blocked_ms (Sleep ms) = ms"
| "blocked_ms (Poll ms r) = (if r = 0 then ms else 0)"
| "blocked_ms _ = 0"

definition elapsed_ms :: "action list \<Rightarrow> nat" where
  "elapsed_ms acts = sum_list (map blocked_ms acts)"

text \<open>
  Repeated time-outs: a broker that accepts the connection and never answers, and an
  access point that accepts the request and never reports a result.
\<close>

definition silent_broker :: "nat \<Rightarrow> tb_attempt" where
  "silent_broker k =
     \<lparr>connect_ret = 0,
      slices = (\<lambda>i. \<lparr>poll_ret = 0, pollin = False, input_events = []\<rparr>),
      sock = 0,
      disconnect_events = [MQTT_EVT_DISCONNECT]\<rparr>"

definition silent_access_point :: wifi_env where
  "silent_access_point =
     \<lparr>iface_found = True,
      attempts = (\<lambda>k. \<lparr>request_ret = 0, link_events = [], addr_events = []\<rparr>)\<rparr>"

text \<open>
  The same two collaborators answering at once: the link result and the address arrive
  during the waits, the CONNACK in the first slice.
\<close>

definition answering_access_point :: wifi_env where
  "answering_access_point =
     \<lparr>iface_found = True,
      attempts = (\<lambda>k. \<lparr>request_ret = 0,
                        link_events = [NET_EVENT_WIFI_CONNECT_RESULT 0],
                        addr_events = [NET_EVENT_IPV4_ADDR_ADD]\<rparr>)\<rparr>"

definition answering_broker :: "nat \<Rightarrow> tb_attempt" where
  "answering_broker k =
     \<lparr>connect_ret = 0,
      slices = (\<lambda>i. \<lparr>poll_ret = 1, pollin = True, input_events = [MQTT_EVT_CONNACK 0]\<rparr>),
      sock = 0,
      disconnect_events = [MQTT_EVT_DISCONNECT]\<rparr>"

definition online_boot :: boot_env where
  "online_boot =
     \<lparr>uart_ready = True, boot_wifi = (\<lambda>k. answering_access_point), boot_resolved = True,
      boot_tb = answering_broker\<rparr>"

definition offline_boot :: boot_env where
  "offline_boot =
     \<lparr>uart_ready = True, boot_wifi = (\<lambda>k. silent_access_point), boot_resolved = True,
      boot_tb = silent_broker\<rparr>"

section \<open>Sample responses\<close>

text \<open>A byte array holding the given bytes from index 0 on, and zero behind them.\<close>

definition buffer_of :: "u8 list \<Rightarrow> buffer" where
  "buffer_of xs i = (if i < length xs then xs ! i else 0)"

text \<open>
  The reply of device 1 to the request for 38 registers: 81 bytes, with flow words
  04D2 0001, forward-total words D687 0012, pressure 300, status 0x0024, temperature
  2500, serial 12345678, bus address 1 and baud code 1.
\<close>

definition sample_reply :: "u8 list" where
  "sample_reply =
     [0x01, 0x03, 0x4C, 0x04, 0xD2, 0x00, 0x01, 0x00, 0x00, 0x00, 0x00, 0x00, 0x00, 0x00, 0x00, 0xD6,
      0x87, 0x00, 0x12, 0x00, 0x00, 0x00, 0x00, 0x00, 0x00, 0x00, 0x00, 0x00, 0x00, 0x00, 0x00, 0x00,
      0x00, 0x00, 0x00, 0x00, 0x00, 0x00, 0x00, 0x01, 0x2C, 0x00, 0x24, 0x00, 0x00, 0x00, 0x00, 0x00,
      0x00, 0x00, 0x00, 0x00, 0x00, 0x00, 0x00, 0x00, 0x00, 0x00, 0x00, 0x00, 0x00, 0x09, 0xC4, 0x00,
      0x00, 0x00, 0x00, 0x12, 0x34, 0x56, 0x78, 0x00, 0x01, 0x00, 0x00, 0x00, 0x01, 0x00, 0x00, 0x5B,
      0xE2]"

text \<open>A frame of 70 bytes with the header of device 1 and a matching CRC.\<close>

definition short_reply :: "u8 list" where
  "short_reply =
     [0x01, 0x03, 0x40, 0x00, 0x00, 0x00, 0x00, 0x00, 0x00, 0x00, 0x00, 0x00, 0x00, 0x00, 0x00, 0x00,
      0x00, 0x00, 0x00, 0x00, 0x00, 0x00, 0x00, 0x00, 0x00, 0x00, 0x00, 0x00, 0x00, 0x00, 0x00, 0x00,
      0x00, 0x00, 0x00, 0x00, 0x00, 0x00, 0x00, 0x00, 0x00, 0x00, 0x00, 0x00, 0x00, 0x00, 0x00, 0x00,
      0x00, 0x00, 0x00, 0x00, 0x00, 0x00, 0x00, 0x00, 0x00, 0x00, 0x00, 0x00, 0x00, 0x00, 0x00, 0x00,
      0x00, 0x00, 0x00, 0x00, 0x28, 0x56]"

text \<open>A pass of the main loop in which the meter sends the sample reply.\<close>

definition sample_cycle :: cycle_env where
  "sample_cycle =
     \<lparr>net_events = [],
      re_wifi = silent_access_point,
      re_resolved = True,
      re_tb = silent_broker,
      meter_env = \<lparr>entry_uptime = 0, uart_replies = map Some sample_reply,
                   stack_tx = (\<lambda>i. 0), stack_rx = (\<lambda>i. 0)\<rparr>,
      attributes_rc = 0,
      telemetry_rc = 0,
      maintenance_events = []\<rparr>"

text \<open>
  A connected device holding a valid reading with the given status word, and the status
  fields of the message that a publish of it leaves in the trace.
\<close>

definition connected_with_status :: "u16 \<Rightarrow> globals" where
  "connected_with_status st =
     initial_globals\<lparr>mqtt_connected := True,
                     meter_data := initial_meter_data\<lparr>status := st, valid := True\<rparr>\<rparr>"

definition indications :: "retval \<times> globals \<Rightarrow> (string \<times> json) list" where
  "indications r =
     (case trace (snd r) of
        [Mqtt_publish topic payload] \<Rightarrow>
          filter (\<lambda>kv. fst kv \<in> {''status'', ''leak'', ''empty'', ''lowBattery''}) payload
      | _ \<Rightarrow> [])"

section \<open>The statements of the specification that the code is compared with\<close>

text \<open>
  The minimum length of a response as the specification derives it: 3 bytes of header,
  two bytes for each register asked for, 2 bytes of CRC.
\<close>

definition response_length :: "nat \<Rightarrow> nat" where
  "response_length quantity = 3 + 2 * quantity + 2"

text \<open>
  A 32-bit field as the specification words it: the two consecutive big-endian 16-bit
  words at \<open>offset\<close> and \<open>offset + 2\<close> of the payload, combined as
  \<^verbatim>\<open>(high_word << 16) | low_word\<close> with the second word of the pair holding the lower
  16 bits.
\<close>

definition be16_at :: "(nat \<Rightarrow> u8) \<Rightarrow> nat \<Rightarrow> u32" where
  "be16_at p i = push_bit 8 (ucast (p i)) OR ucast (p (i + 1))"

definition second_word_low :: "(nat \<Rightarrow> u8) \<Rightarrow> nat \<Rightarrow> u32" where
  "second_word_low p offset = push_bit 16 (be16_at p offset) OR be16_at p (offset + 2)"

text \<open>
  ``A link-established signal has been observed since the last disconnect'', on the
  notifications seen so far (the latest last): some connect result with status 0 is
  followed by no link-down and no session-disconnect notification.
\<close>

fun link_established_since_disconnect :: "event list \<Rightarrow> bool" where
  "link_established_since_disconnect [] = False"
| "link_established_since_disconnect (e # es) =
     (if link_established_since_disconnect es then True
      else e = Net (NET_EVENT_WIFI_CONNECT_RESULT 0)
             \<and> Net NET_EVENT_WIFI_DISCONNECT_RESULT \<notin> set es
             \<and> Mqtt MQTT_EVT_DISCONNECT \<notin> set es)"

section \<open>Evaluating the CRC\<close>

lemma crc_shift_step: "crc_shift (Suc j) c = crc_shift j (crc_step c)"
  by (simp add: crc_step_def)

lemma crc_shift_8: "crc_shift 8 c =
  crc_step (crc_step (crc_step (crc_step (crc_step (crc_step (crc_step (crc_step c)))))))"
proof -
  have "(8::nat) = Suc (Suc (Suc (Suc (Suc (Suc (Suc (Suc 0)))))))" by simp
  then show ?thesis by (simp only: crc_shift_step crc_shift.simps(1))
qed

lemma crc_shift_funpow: "crc_shift n c = (crc_step ^^ n) c"
  by (induction n arbitrary: c) (simp_all add: crc_step_def funpow_swap1)

lemma crc_step_numeral:
  "crc_step (numeral k) =
     (if (numeral k :: u16) AND 0x0001 \<noteq> 0 then drop_bit 1 (numeral k) XOR 0xA001
      else drop_bit 1 (numeral k))"
  by (simp add: crc_step_def)

lemma crc_step_0: "crc_step 0 = 0"
  by (simp add: crc_step_def)

lemma crc_step_1: "crc_step 1 = 0xA001"
  by (simp add: crc_step_def)

lemmas crc_eval =
  modbus_crc16_def crc_bytes.simps crc_shift_8 crc_step_numeral crc_step_0 crc_step_1

lemma crc_bytes_append: "crc_bytes c (xs @ ys) = crc_bytes (crc_bytes c xs) ys"
  by (induction xs arbitrary: c) simp_all

lemma modbus_crc16_snoc:
  "modbus_crc16 (xs @ [b]) = (crc_step ^^ 8) (modbus_crc16 xs XOR ucast b)"
  by (simp add: modbus_crc16_def crc_bytes_append crc_shift_funpow del: crc_shift.simps)

lemma upt_6: "[0..<6] = [0, 1, 2, 3, 4, 5]"
  by (simp add: upt_rec)

lemma upt_8: "[0..<8] = [0, 1, 2, 3, 4, 5, 6, 7]"
  by (simp add: upt_rec)

lemma mask_8_u16: "(0xFF :: u16) = mask 8"
  by (simp add: mask_eq_exp_minus_1)

lemma low_byte_unat: "unat (ucast (c AND 0xFF :: u16) :: u8) = unat c mod 256"
proof -
  have "(ucast (c AND 0xFF) :: u8) = ucast c"
    unfolding mask_8_u16 by (rule bit_word_eqI) (auto simp add: bit_simps)
  then show ?thesis
    by (simp add: unsigned_ucast_eq take_bit_eq_mod)
qed

lemma high_byte_unat: "unat (ucast (drop_bit 8 c AND 0xFF :: u16) :: u8) = unat c div 256"
proof -
  have eq: "(ucast (drop_bit 8 c AND 0xFF) :: u8) = ucast (drop_bit 8 c)"
    unfolding mask_8_u16 by (rule bit_word_eqI) (auto simp add: bit_simps)
  have d: "unat (drop_bit 8 c) = unat c div 256"
    unfolding unat_drop_bit_eq by (simp add: drop_bit_eq_div)
  have "unat c < 65536"
    using unsigned_less [of c, where 'a = nat] by simp
  then have "unat c div 256 < 256"
    by simp
  then show ?thesis
    unfolding eq by (simp add: unsigned_ucast_eq take_bit_eq_mod d)
qed

section \<open>Bytes and words\<close>

lemma unat_u8_bound: "unat (a :: u8) < 256"
  using unsigned_less [of a, where 'a = nat] by simp

lemma unat_push_bit_small:
  "unat (w :: 'a::len word) * 2 ^ n < 2 ^ LENGTH('a) \<Longrightarrow> unat (push_bit n w) = unat w * 2 ^ n"
  unfolding unsigned_push_bit_eq by (simp add: push_bit_eq_mult take_bit_nat_eq_self)

lemma cat16: "unat (push_bit 8 (ucast (a :: u8)) OR ucast (b :: u8) :: u16) = unat a * 256 + unat b"
proof -
  have d: "push_bit 8 (ucast a :: u16) AND ucast b = 0"
    by (rule bit_word_eqI) (auto simp add: bit_simps dest: bit_imp_le_length)
  have "push_bit 8 (ucast a :: u16) OR ucast b = push_bit 8 (ucast a) + ucast b"
    using disjunctive_add_eq_or [OF d] by simp
  moreover have "unat (ucast a :: u16) = unat a" "unat (ucast b :: u16) = unat b"
    by (simp_all add: unsigned_ucast_eq take_bit_nat_eq_self unat_u8_bound [THEN less_trans])
  moreover have "unat (push_bit 8 (ucast a :: u16)) = unat (ucast a :: u16) * 2 ^ 8"
    by (rule unat_push_bit_small)
      (use unat_u8_bound [of a] in \<open>simp add: unsigned_ucast_eq take_bit_nat_eq_self\<close>)
  ultimately show ?thesis
    using unat_u8_bound [of a] unat_u8_bound [of b]
    by (simp add: unat_word_ariths)
qed


lemma cat32: "unat (push_bit 8 (ucast (a :: u8)) OR ucast (b :: u8) :: u32) = unat a * 256 + unat b"
proof -
  have d: "push_bit 8 (ucast a :: u32) AND ucast b = 0"
    by (rule bit_word_eqI) (auto simp add: bit_simps dest: bit_imp_le_length)
  have "push_bit 8 (ucast a :: u32) OR ucast b = push_bit 8 (ucast a) + ucast b"
    using disjunctive_add_eq_or [OF d] by simp
  moreover have "unat (ucast a :: u32) = unat a" "unat (ucast b :: u32) = unat b"
    by (simp_all add: unsigned_ucast_eq take_bit_nat_eq_self unat_u8_bound [THEN less_trans])
  moreover have "unat (push_bit 8 (ucast a :: u32)) = unat (ucast a :: u32) * 2 ^ 8"
    by (rule unat_push_bit_small)
      (use unat_u8_bound [of a] in \<open>simp add: unsigned_ucast_eq take_bit_nat_eq_self\<close>)
  ultimately show ?thesis
    using unat_u8_bound [of a] unat_u8_bound [of b]
    by (simp add: unat_word_ariths)
qed

lemma pair32:
  fixes a b c d :: u8
  shows "unat (push_bit 16 (push_bit 8 (ucast c) OR ucast d :: u32) OR (push_bit 8 (ucast a) OR ucast b))
     = (unat c * 256 + unat d) * 65536 + (unat a * 256 + unat b)"
proof -
  let ?hi = "push_bit 8 (ucast c) OR ucast d :: u32"
  let ?lo = "push_bit 8 (ucast a) OR ucast b :: u32"
  have hi: "unat ?hi = unat c * 256 + unat d" and lo: "unat ?lo = unat a * 256 + unat b"
    by (rule cat32)+
  have hib: "unat ?hi < 65536" and lob: "unat ?lo < 65536"
    using unat_u8_bound [of a] unat_u8_bound [of b] unat_u8_bound [of c] unat_u8_bound [of d]
    unfolding hi lo by simp_all
  have d0: "push_bit 16 ?hi AND ?lo = 0"
    by (rule bit_word_eqI) (auto simp add: bit_simps dest: bit_imp_le_length)
  have "push_bit 16 ?hi OR ?lo = push_bit 16 ?hi + ?lo"
    using disjunctive_add_eq_or [OF d0] by simp
  moreover have "unat (push_bit 16 ?hi) = unat ?hi * 2 ^ 16"
    by (rule unat_push_bit_small) (use hib in simp)
  ultimately have "unat (push_bit 16 ?hi OR ?lo) = unat ?hi * 65536 + unat ?lo"
    using hib lob by (simp add: unat_word_ariths)
  then show ?thesis
    unfolding hi lo .
qed

lemma be32:
  fixes a b c d :: u8
  shows "unat (push_bit 24 (ucast a) OR push_bit 16 (ucast b) OR push_bit 8 (ucast c) OR ucast d :: u32)
     = unat a * 16777216 + unat b * 65536 + unat c * 256 + unat d"
proof -
  have "(push_bit 24 (ucast a) OR push_bit 16 (ucast b) OR push_bit 8 (ucast c) OR ucast d :: u32)
      = push_bit 16 (push_bit 8 (ucast a) OR ucast b) OR (push_bit 8 (ucast c) OR ucast d)"
    by (rule bit_word_eqI) (auto simp add: bit_simps)
  then show ?thesis
    by (simp only: pair32) simp
qed

section \<open>Frame construction\<close>

text \<open>
  C5.  For every device address and every prior content of the transmit buffer,
  \<^verbatim>\<open>build_read_cmd\<close> leaves the eight bytes address, 0x03, 0x00, 0x01, 0x00, 0x26, CRC low
  byte, CRC high byte, the CRC being \<^verbatim>\<open>modbus_crc16\<close> of the first six.  The CRC starts
  from 0xFFFF, folds every further byte in by one exclusive-or and eight shifts of the
  reflected polynomial 0xA001, and gives the check value 0x4B37 of CRC-16/MODBUS on the
  ASCII digits 1 to 9.
\<close>

theorem build_read_cmd_frame:
  "(\<exists>lo hi. map (build_read_cmd buf a) [0..<8] = [a, 0x03, 0x00, 0x01, 0x00, 0x26, lo, hi]
       \<and> unat lo = unat (modbus_crc16 [a, 0x03, 0x00, 0x01, 0x00, 0x26]) mod 256
       \<and> unat hi = unat (modbus_crc16 [a, 0x03, 0x00, 0x01, 0x00, 0x26]) div 256)
   \<and> modbus_crc16 [] = 0xFFFF
   \<and> modbus_crc16 (xs @ [b]) = (crc_step ^^ 8) (modbus_crc16 xs XOR ucast b)
   \<and> crc_step c = (if bit c 0 then drop_bit 1 c XOR 0xA001 else drop_bit 1 c)
   \<and> modbus_crc16 [0x31, 0x32, 0x33, 0x34, 0x35, 0x36, 0x37, 0x38, 0x39] = 0x4B37"
proof (intro conjI)
  let ?crc = "modbus_crc16 [a, 0x03, 0x00, 0x01, 0x00, 0x26]"
  show "\<exists>lo hi. map (build_read_cmd buf a) [0..<8] = [a, 0x03, 0x00, 0x01, 0x00, 0x26, lo, hi]
           \<and> unat lo = unat ?crc mod 256 \<and> unat hi = unat ?crc div 256"
  proof (intro exI conjI)
    show "map (build_read_cmd buf a) [0..<8] =
        [a, 0x03, 0x00, 0x01, 0x00, 0x26, ucast (?crc AND 0xFF), ucast (drop_bit 8 ?crc AND 0xFF)]"
      unfolding build_read_cmd_def Let_def upt_6 upt_8
      by (simp del: crc_shift.simps)
    show "unat (ucast (?crc AND 0xFF) :: u8) = unat ?crc mod 256"
      by (rule low_byte_unat)
    show "unat (ucast (drop_bit 8 ?crc AND 0xFF) :: u8) = unat ?crc div 256"
      by (rule high_byte_unat)
  qed
  show "modbus_crc16 [] = 0xFFFF"
    by (simp add: modbus_crc16_def)
  show "modbus_crc16 (xs @ [b]) = (crc_step ^^ 8) (modbus_crc16 xs XOR ucast b)"
    by (rule modbus_crc16_snoc)
  show "crc_step c = (if bit c 0 then drop_bit 1 c XOR 0xA001 else drop_bit 1 c)"
    by (simp add: crc_step_def and_one_eq bit_0 mod_2_eq_odd)
  show "modbus_crc16 [0x31, 0x32, 0x33, 0x34, 0x35, 0x36, 0x37, 0x38, 0x39] = 0x4B37"
    by (simp add: crc_eval del: crc_shift.simps)
qed

text \<open>The request for device 1 is 01 03 00 01 00 26 95 D0.\<close>

theorem build_read_cmd_frame_witness:
  "map (build_read_cmd (\<lambda>i. 0) 1) [0..<8] = [0x01, 0x03, 0x00, 0x01, 0x00, 0x26, 0x95, 0xD0]"
proof -
  have crc: "modbus_crc16 [1, 0x03, 0x00, 0x01, 0x00, 0x26] = 0xD095"
    by (simp add: crc_eval del: crc_shift.simps)
  from build_read_cmd_frame [of "\<lambda>i. 0" 1, THEN conjunct1]
  obtain lo hi :: u8 where f: "map (build_read_cmd (\<lambda>i. 0) 1) [0..<8] = [1, 0x03, 0x00, 0x01, 0x00, 0x26, lo, hi]"
    and lo: "unat lo = unat (modbus_crc16 [1, 0x03, 0x00, 0x01, 0x00, 0x26]) mod 256"
    and hi: "unat hi = unat (modbus_crc16 [1, 0x03, 0x00, 0x01, 0x00, 0x26]) div 256"
    by (elim exE conjE)
  from lo have "unat lo = unat (0x95 :: u8)"
    unfolding crc by simp
  then have "lo = 0x95"
    by (simp only: word_unat_eq_iff)
  moreover from hi have "unat hi = unat (0xD0 :: u8)"
    unfolding crc by simp
  then have "hi = 0xD0"
    by (simp only: word_unat_eq_iff)
  ultimately show ?thesis
    using f by simp
qed

section \<open>The receive loop\<close>

lemma unat_add5: "unat (x :: u32) \<le> 2000 \<Longrightarrow> unat (x + 5) = unat x + 5"
  by (simp add: unat_word_ariths)

lemma unat_add5_sub_le: "unat ((x :: u32) + 5 - y) \<le> unat (x - y) + 5"
proof -
  have "x + 5 - y = (x - y) + 5" by simp
  then show ?thesis by (simp only: unat_word_ariths) simp
qed

lemma idle_after_sleep: "unat (x - y) \<le> 150 \<Longrightarrow> unat ((x :: u32) + 5 - y) \<le> 155"
  using unat_add5_sub_le [of x y] by simp

lemma word_gt_150: "((x :: u32) > 150) = (unat x > 150)"
  by (simp add: word_less_nat_alt)

lemma word_lt_2000: "((x :: u32) < 2000) = (unat x < 2000)"
  by (simp add: word_less_nat_alt)

lemma idle_check_Break:
  "idle_check s = Break s' \<Longrightarrow> s' = s \<and> rx_len s > 3 \<and> unat (uptime s - last_byte s) > 150"
  by (auto simp add: idle_check_def word_gt_150 split: if_splits)

lemma idle_check_Continue:
  "idle_check s = Continue s' \<Longrightarrow>
     s' = s\<lparr>uptime := uptime s + 5\<rparr> \<and> (rx_len s > 3 \<longrightarrow> unat (uptime s - last_byte s) \<le> 150)"
  by (auto simp add: idle_check_def word_gt_150 split: if_splits)

lemma idle_check_not_Fault: "idle_check s \<noteq> Fault"
  by (simp add: idle_check_def)

lemma recv_iter_not_Fault: "rx_len s < MODBUS_RX_BUFFER \<Longrightarrow> recv_iter s \<noteq> Fault"
  by (auto simp add: recv_iter_def Let_def idle_check_not_Fault split: prod.splits option.splits)

lemma recv_iter_Break:
  assumes "recv_iter s = Break s'" and "rx_len s < MODBUS_RX_BUFFER"
  shows "uptime s' = uptime s"
    and "rx_len s \<le> rx_len s'" and "rx_len s' \<le> MODBUS_RX_BUFFER"
    and "\<forall>i\<ge>MODBUS_RX_BUFFER. rx_buf s' i = rx_buf s i"
    and "(rx_len s' = MODBUS_RX_BUFFER \<and> last_byte s' = uptime s') \<or>
         (rx_len s' < MODBUS_RX_BUFFER \<and> rx_len s' > 3 \<and> unat (uptime s' - last_byte s') > 150)"
    and "(rx_len s > 3 \<longrightarrow> unat (uptime s - last_byte s) \<le> 155) \<Longrightarrow>
         rx_len s' > 3 \<longrightarrow> unat (uptime s' - last_byte s') \<le> 155"
  using assms
  by (auto simp add: recv_iter_def Let_def split: prod.splits option.splits if_splits
      dest!: idle_check_Break)

lemma recv_iter_Continue:
  assumes "recv_iter s = Continue s'" and "rx_len s < MODBUS_RX_BUFFER"
  shows "uptime s' = uptime s + 5"
    and "rx_len s \<le> rx_len s'" and "rx_len s' < MODBUS_RX_BUFFER"
    and "\<forall>i\<ge>MODBUS_RX_BUFFER. rx_buf s' i = rx_buf s i"
    and "rx_len s' > 3 \<longrightarrow> unat (uptime s' - last_byte s') \<le> 155"
  using assms
  by (auto simp add: recv_iter_def Let_def split: prod.splits option.splits if_splits
      dest!: idle_check_Continue intro: idle_after_sleep)


lemma recv_loop_exit:
  assumes "rx_len s < MODBUS_RX_BUFFER"
    and "unat (uptime s - start) \<le> 2000"
    and "5 dvd unat (uptime s - start)"
    and "rx_len s > 3 \<longrightarrow> unat (uptime s - last_byte s) \<le> 155"
  shows "\<exists>s'. recv_loop start s = Some s'
           \<and> unat (uptime s' - start) \<le> 2000
           \<and> (rx_len s' > 3 \<longrightarrow> unat (uptime s' - last_byte s') \<le> 155)
           \<and> rx_len s \<le> rx_len s' \<and> rx_len s' \<le> MODBUS_RX_BUFFER
           \<and> (rx_len s' = MODBUS_RX_BUFFER \<longrightarrow> uptime s' = last_byte s')
           \<and> (unat (uptime s' - start) < 2000 \<and> rx_len s' < MODBUS_RX_BUFFER
                 \<longrightarrow> rx_len s' > 3 \<and> unat (uptime s' - last_byte s') > 150)
           \<and> (\<forall>i\<ge>MODBUS_RX_BUFFER. rx_buf s' i = rx_buf s i)"
  using assms
proof (induction start s rule: recv_loop.induct)
  case (1 start s)
  show ?case
  proof (cases "uptime s - start < 2000")
    case False
    then have "unat (uptime s - start) = 2000"
      using "1.prems"(2) by (simp add: word_lt_2000)
    with False "1.prems" show ?thesis
      by (simp add: recv_loop.simps [of start s])
  next
    case lt: True
    then have n: "unat (uptime s - start) < 2000"
      by (simp add: word_lt_2000)
    show ?thesis
    proof (cases "recv_iter s")
      case Fault
      with recv_iter_not_Fault [OF "1.prems"(1)] show ?thesis by simp
    next
      case (Break s')
      note b = recv_iter_Break [OF Break "1.prems"(1)]
      have "recv_loop start s = Some s'"
        using lt Break by (simp add: recv_loop.simps [of start s])
      moreover have "unat (uptime s' - start) \<le> 2000"
        using b(1) "1.prems"(2) by simp
      moreover have "rx_len s' > 3 \<longrightarrow> unat (uptime s' - last_byte s') \<le> 155"
        using b(6) "1.prems"(4) by blast
      ultimately show ?thesis
        using b(2,3,4,5) by auto
    next
      case (Continue s1)
      note c = recv_iter_Continue [OF Continue "1.prems"(1)]
      have eq: "uptime s1 - start = (uptime s - start) + 5"
        using c(1) by simp
      have u: "unat (uptime s1 - start) = unat (uptime s - start) + 5"
        unfolding eq using n by (simp add: unat_word_ariths)
      have le: "unat (uptime s1 - start) \<le> 2000"
      proof -
        from "1.prems"(3) obtain k where k: "unat (uptime s - start) = 5 * k" ..
        with n have "k < 400" by simp
        then have "5 * k + 5 \<le> 2000" by simp
        with u k show ?thesis by simp
      qed
      have dv: "5 dvd unat (uptime s1 - start)"
        using u "1.prems"(3) by simp
      from "1.IH" [OF lt Continue c(3) le dv c(5)]
      obtain s' where s': "recv_loop start s1 = Some s'"
          "unat (uptime s' - start) \<le> 2000"
          "rx_len s' > 3 \<longrightarrow> unat (uptime s' - last_byte s') \<le> 155"
          "rx_len s1 \<le> rx_len s'" "rx_len s' \<le> MODBUS_RX_BUFFER"
          "rx_len s' = MODBUS_RX_BUFFER \<longrightarrow> uptime s' = last_byte s'"
          "unat (uptime s' - start) < 2000 \<and> rx_len s' < MODBUS_RX_BUFFER
                 \<longrightarrow> rx_len s' > 3 \<and> unat (uptime s' - last_byte s') > 150"
          "\<forall>i\<ge>MODBUS_RX_BUFFER. rx_buf s' i = rx_buf s1 i"
        by blast
      have "recv_loop start s = Some s'"
        using lt Continue s'(1) by (simp add: recv_loop.simps [of start s])
      then show ?thesis
        using s'(2-8) c(2,4) by auto
    qed
  qed
qed

section \<open>Validation and decoding\<close>

lemma rd_in [simp]: "i < MODBUS_RX_BUFFER \<Longrightarrow> rd buf i = Some (buf i)"
  by (simp add: rd_def)

lemma rd_bytes_in [simp]: "n \<le> MODBUS_RX_BUFFER \<Longrightarrow> rd_bytes buf n = Some (map buf [0..<n])"
  by (simp add: rd_bytes_def)

lemma map_buffer_of: "n \<le> length xs \<Longrightarrow> map (buffer_of xs) [0..<n] = take n xs"
  by (rule nth_equalityI) (simp_all add: buffer_of_def)

text \<open>The decoded record, written out on the bytes of the buffer.\<close>

lemma read_u32_in:
  "offset + 3 < MODBUS_RX_BUFFER - 3 \<Longrightarrow>
   read_u32 (\<lambda>i. rd buf (3 + i)) offset =
     Some (push_bit 16 (push_bit 8 (ucast (buf (3 + offset + 2))) OR ucast (buf (3 + offset + 3)))
           OR (push_bit 8 (ucast (buf (3 + offset))) OR ucast (buf (3 + offset + 1))))"
  by (simp add: read_u32_def Let_def add.assoc)

lemma parse_meter_data_in:
  "parse_meter_data (\<lambda>i. rd buf (3 + i)) md =
     Some (md\<lparr>flow_rate := push_bit 16 (push_bit 8 (ucast (buf 5)) OR ucast (buf 6))
                             OR (push_bit 8 (ucast (buf 3)) OR ucast (buf 4)),
              forward_total := push_bit 16 (push_bit 8 (ucast (buf 17)) OR ucast (buf 18))
                             OR (push_bit 8 (ucast (buf 15)) OR ucast (buf 16)),
              reverse_total := push_bit 16 (push_bit 8 (ucast (buf 23)) OR ucast (buf 24))
                             OR (push_bit 8 (ucast (buf 21)) OR ucast (buf 22)),
              pressure := push_bit 8 (ucast (buf 39)) OR ucast (buf 40),
              temperature := push_bit 8 (ucast (buf 61)) OR ucast (buf 62),
              status := push_bit 8 (ucast (buf 41)) OR ucast (buf 42),
              serial_number := push_bit 24 (ucast (buf 67)) OR push_bit 16 (ucast (buf 68))
                                 OR push_bit 8 (ucast (buf 69)) OR ucast (buf 70),
              modbus_id := buf 72,
              baud_code := push_bit 8 (ucast (buf 75)) OR ucast (buf 76),
              valid := True\<rparr>)"
  by (simp add: parse_meter_data_def read_u32_in MODBUS_RX_BUFFER_def)


lemma trailer_unat:
  "unat (ucast (lo :: u8) OR push_bit 8 (ucast (hi :: u8)) :: u16) = unat lo + 256 * unat hi"
  using cat16 [of hi lo] by (simp add: or.commute)

lemma trailer_neq:
  "((ucast (lo :: u8) OR push_bit 8 (ucast (hi :: u8)) :: u16) \<noteq> c)
     = (unat c \<noteq> unat lo + 256 * unat hi)"
  by (metis trailer_unat word_unat_eq_iff)

lemma validate_response_eq:
  assumes "n \<le> MODBUS_RX_BUFFER"
  shows "validate_response buf n md =
     (if n < 70 then Some (- 1, Incomplete_response n, md\<lparr>valid := False\<rparr>)
      else if unat (modbus_crc16 (map buf [0..<n - 2])) \<noteq> unat (buf (n - 2)) + 256 * unat (buf (n - 1))
        then Some (- 1, CRC_error (ucast (buf (n - 2)) OR push_bit 8 (ucast (buf (n - 1))))
                     (modbus_crc16 (map buf [0..<n - 2])), md\<lparr>valid := False\<rparr>)
      else if buf 0 \<noteq> MODBUS_SLAVE_ID \<or> buf 1 \<noteq> 0x03
        then Some (- 1, Invalid_response_header, md\<lparr>valid := False\<rparr>)
      else map_option (\<lambda>m. (0, Meter_data_read_successfully, m))
             (parse_meter_data (\<lambda>i. rd buf (3 + i)) md))"
proof (cases "n < 70")
  case True
  then show ?thesis by (simp add: validate_response_def)
next
  case False
  with assms have b: "n - 2 < MODBUS_RX_BUFFER" "n - 1 < MODBUS_RX_BUFFER" "n - 2 \<le> MODBUS_RX_BUFFER"
    "0 < MODBUS_RX_BUFFER" "1 < MODBUS_RX_BUFFER"
    by (simp_all add: MODBUS_RX_BUFFER_def)
  have r: "rd buf (n - 2) = Some (buf (n - 2))" "rd buf (n - 1) = Some (buf (n - 1))"
    "rd_bytes buf (n - 2) = Some (map buf [0..<n - 2])"
    "rd buf 0 = Some (buf 0)" "rd buf 1 = Some (buf 1)"
    using b by simp_all
  have m: "\<And>x. x \<bind> (\<lambda>md'. Some (0 :: int, Meter_data_read_successfully, md'))
      = map_option (\<lambda>m. (0, Meter_data_read_successfully, m)) x"
    by (case_tac x) simp_all
  show ?thesis
    using False unfolding validate_response_def r m
    by (simp add: Let_def trailer_neq)
qed


lemma parse_meter_data_total:
  "parse_meter_data (\<lambda>i. rd buf (3 + i)) md = parse_meter_data (\<lambda>i. Some (buf (3 + i))) md"
  by (simp add: parse_meter_data_def read_u32_def MODBUS_RX_BUFFER_def)

text \<open>
  C1.  For every content of the receive buffer and every received length up to the size of
  the buffer, the checks of \<^verbatim>\<open>read_meter_data\<close> behind the loop run one after the other
  and exactly one outcome is logged.  The response is incomplete exactly when fewer than 70
  bytes were received.  Of the responses of 70 bytes or more, a CRC error is logged exactly
  for those whose last two bytes, read low byte first, differ from \<^verbatim>\<open>modbus_crc16\<close> of
  all bytes before them.  Of those that pass, the header is invalid exactly when byte 0 is
  not the device address or byte 1 is not 0x03, one condition and one log line for both.
  All three failures return -1 and change nothing but the valid flag; every other response
  returns 0 and is decoded from byte 3 on.
\<close>

theorem validate_response_cascade:
  assumes "n \<le> MODBUS_RX_BUFFER"
  shows "\<exists>r lg md'. validate_response buf n md = Some (r, lg, md')
     \<and> ((\<exists>k. lg = Incomplete_response k) = (n < 70))
     \<and> ((\<exists>x y. lg = CRC_error x y) =
          (70 \<le> n \<and> unat (modbus_crc16 (map buf [0..<n - 2]))
                        \<noteq> unat (buf (n - 2)) + 256 * unat (buf (n - 1))))
     \<and> ((lg = Invalid_response_header) =
          (70 \<le> n \<and> unat (modbus_crc16 (map buf [0..<n - 2]))
                        = unat (buf (n - 2)) + 256 * unat (buf (n - 1))
                  \<and> (buf 0 \<noteq> MODBUS_SLAVE_ID \<or> buf 1 \<noteq> 0x03)))
     \<and> ((lg = Meter_data_read_successfully) =
          (70 \<le> n \<and> unat (modbus_crc16 (map buf [0..<n - 2]))
                        = unat (buf (n - 2)) + 256 * unat (buf (n - 1))
                  \<and> buf 0 = MODBUS_SLAVE_ID \<and> buf 1 = 0x03))
     \<and> r = (if lg = Meter_data_read_successfully then 0 else - 1)
     \<and> (if lg = Meter_data_read_successfully
          then parse_meter_data (\<lambda>i. Some (buf (3 + i))) md = Some md'
          else md' = md\<lparr>valid := False\<rparr>)"
proof -
  obtain m where m: "parse_meter_data (\<lambda>i. rd buf (3 + i)) md = Some m"
    using parse_meter_data_in by blast
  show ?thesis
    unfolding validate_response_eq [OF assms] parse_meter_data_total [symmetric] m
    by auto
qed


lemma sample_crc: "modbus_crc16 (take 79 sample_reply) = 0xE25B"
  by (simp add: sample_reply_def crc_eval del: crc_shift.simps)

lemma short_crc: "modbus_crc16 (take 68 short_reply) = 0x5628"
  by (simp add: short_reply_def crc_eval del: crc_shift.simps)

lemma sample_length: "length sample_reply = 81"
  by (simp add: sample_reply_def)

lemma short_length: "length short_reply = 70"
  by (simp add: short_reply_def)

lemma sample_bytes:
  "buffer_of sample_reply 0 = 0x01" "buffer_of sample_reply 1 = 0x03"
  "buffer_of sample_reply (Suc 0) = 0x03"
  "buffer_of sample_reply 79 = 0x5B" "buffer_of sample_reply 80 = 0xE2"
  by (simp_all add: buffer_of_def sample_reply_def)

theorem validate_response_cascade_witness:
  "(81 :: nat) \<le> MODBUS_RX_BUFFER
   \<and> (\<exists>md'. validate_response (buffer_of sample_reply) 81 initial_meter_data
               = Some (0, Meter_data_read_successfully, md'))"
proof -
  have n: "(81 :: nat) \<le> MODBUS_RX_BUFFER"
    by (simp add: MODBUS_RX_BUFFER_def)
  have c: "modbus_crc16 (map (buffer_of sample_reply) [0..<81 - 2]) = 0xE25B"
    by (simp add: map_buffer_of sample_length sample_crc)
  from validate_response_cascade [OF n, of "buffer_of sample_reply" initial_meter_data]
  obtain r lg md' where
    v: "validate_response (buffer_of sample_reply) 81 initial_meter_data = Some (r, lg, md')"
    and ok: "(lg = Meter_data_read_successfully) =
          (70 \<le> (81 :: nat) \<and> unat (modbus_crc16 (map (buffer_of sample_reply) [0..<81 - 2]))
               = unat (buffer_of sample_reply (81 - 2)) + 256 * unat (buffer_of sample_reply (81 - 1))
             \<and> buffer_of sample_reply 0 = MODBUS_SLAVE_ID \<and> buffer_of sample_reply 1 = 0x03)"
    and r: "r = (if lg = Meter_data_read_successfully then 0 else - 1)"
    by (elim exE conjE)
  from ok have "lg = Meter_data_read_successfully"
    unfolding c by (simp add: sample_bytes MODBUS_SLAVE_ID_def)
  with r v n show ?thesis
    by simp
qed


lemma garbled_crc: "modbus_crc16 (take 79 (sample_reply[0 := 0x02])) = 0x434B"
  by (simp add: sample_reply_def crc_eval del: crc_shift.simps)

lemma garbled_bytes:
  "buffer_of (sample_reply[0 := 0x02]) 0 = 0x02"
  "buffer_of (sample_reply[0 := 0x02]) 79 = 0x5B" "buffer_of (sample_reply[0 := 0x02]) 80 = 0xE2"
  by (simp_all add: buffer_of_def sample_reply_def)

lemma short_bytes:
  "buffer_of short_reply 0 = 0x01" "buffer_of short_reply 1 = 0x03"
  "buffer_of short_reply (Suc 0) = 0x03"
  "buffer_of short_reply 68 = 0x28" "buffer_of short_reply 69 = 0x56"
  by (simp_all add: buffer_of_def short_reply_def)

theorem validate_response_counterexample:
  "map_option fst (validate_response (buffer_of short_reply) 70 initial_meter_data) = Some 0
   \<and> length short_reply = 70
   \<and> length short_reply < response_length 38
   \<and> map_option (fst \<circ> snd)
        (validate_response (buffer_of (sample_reply[0 := 0x02])) 81 initial_meter_data)
       = Some (CRC_error 0xE25B 0x434B)
   \<and> buffer_of (sample_reply[0 := 0x02]) 0 \<noteq> MODBUS_SLAVE_ID"
proof (intro conjI)
  have n: "(70 :: nat) \<le> MODBUS_RX_BUFFER" "(81 :: nat) \<le> MODBUS_RX_BUFFER"
    by (simp_all add: MODBUS_RX_BUFFER_def)
  have c: "modbus_crc16 (map (buffer_of short_reply) [0..<70 - 2]) = 0x5628"
    by (simp add: map_buffer_of short_length short_crc)
  show "map_option fst (validate_response (buffer_of short_reply) 70 initial_meter_data) = Some 0"
    unfolding validate_response_eq [OF n(1)] c
    by (simp add: short_bytes MODBUS_SLAVE_ID_def parse_meter_data_in option.map_comp comp_def)
  show "length short_reply = 70"
    by (rule short_length)
  show "length short_reply < response_length 38"
    by (simp add: short_length response_length_def)
  have g: "modbus_crc16 (map (buffer_of (sample_reply[0 := 0x02])) [0..<81 - 2]) = 0x434B"
    by (simp add: map_buffer_of sample_length garbled_crc)
  show "map_option (fst \<circ> snd)
        (validate_response (buffer_of (sample_reply[0 := 0x02])) 81 initial_meter_data)
       = Some (CRC_error 0xE25B 0x434B)"
    unfolding validate_response_eq [OF n(2)] g
    by (simp add: garbled_bytes)
  show "buffer_of (sample_reply[0 := 0x02]) 0 \<noteq> MODBUS_SLAVE_ID"
    by (simp add: garbled_bytes MODBUS_SLAVE_ID_def)
qed


lemma read_u32_payload:
  "read_u32 (\<lambda>i. Some (p i)) offset =
     Some (push_bit 16 (push_bit 8 (ucast (p (offset + 2))) OR ucast (p (offset + 3)))
           OR (push_bit 8 (ucast (p offset)) OR ucast (p (offset + 1))))"
  by (simp add: read_u32_def Let_def)

lemma parse_meter_data_payload:
  "parse_meter_data (\<lambda>i. Some (p i)) md =
     Some (md\<lparr>flow_rate := push_bit 16 (push_bit 8 (ucast (p 2)) OR ucast (p 3))
                             OR (push_bit 8 (ucast (p 0)) OR ucast (p 1)),
              forward_total := push_bit 16 (push_bit 8 (ucast (p 14)) OR ucast (p 15))
                             OR (push_bit 8 (ucast (p 12)) OR ucast (p 13)),
              reverse_total := push_bit 16 (push_bit 8 (ucast (p 20)) OR ucast (p 21))
                             OR (push_bit 8 (ucast (p 18)) OR ucast (p 19)),
              pressure := push_bit 8 (ucast (p 36)) OR ucast (p 37),
              temperature := push_bit 8 (ucast (p 58)) OR ucast (p 59),
              status := push_bit 8 (ucast (p 38)) OR ucast (p 39),
              serial_number := push_bit 24 (ucast (p 64)) OR push_bit 16 (ucast (p 65))
                                 OR push_bit 8 (ucast (p 66)) OR ucast (p 67),
              modbus_id := p 69,
              baud_code := push_bit 8 (ucast (p 72)) OR ucast (p 73),
              valid := True\<rparr>)"
  by (simp add: parse_meter_data_def read_u32_payload numeral_2_eq_2 [symmetric])

lemma meter_data_fields:
  assumes "m = md\<lparr>flow_rate := a, forward_total := b, reverse_total := c, pressure := d,
                     temperature := e, status := f, serial_number := g, modbus_id := h,
                     baud_code := k, valid := True\<rparr>"
  shows "flow_rate m = a" "forward_total m = b" "reverse_total m = c" "pressure m = d"
    "temperature m = e" "status m = f" "serial_number m = g" "modbus_id m = h"
    "baud_code m = k" "valid m"
  using assms by simp_all

text \<open>
  C2.  For every payload the decoding succeeds and fills every field: flow from bytes 0 to 3,
  forward total from 12 to 15, reverse total from 18 to 21, pressure from 36 and 37, status
  from 38 and 39, temperature from 58 and 59, serial number from 64 to 67, bus address from
  byte 69 and baud code from 72 and 73.  Every 16-bit word is big-endian.  In flow and the
  two totals, read by \<^verbatim>\<open>read_u32\<close>, the first word of the pair is the low half and the
  second word the high half; the serial number is the four bytes in big-endian order.
\<close>

theorem parse_meter_data_fields:
  "\<exists>md'. parse_meter_data (\<lambda>i. Some (p i)) md = Some md'
     \<and> unat (flow_rate md')
         = (unat (p 2) * 256 + unat (p 3)) * 65536 + (unat (p 0) * 256 + unat (p 1))
     \<and> unat (forward_total md')
         = (unat (p 14) * 256 + unat (p 15)) * 65536 + (unat (p 12) * 256 + unat (p 13))
     \<and> unat (reverse_total md')
         = (unat (p 20) * 256 + unat (p 21)) * 65536 + (unat (p 18) * 256 + unat (p 19))
     \<and> unat (pressure md') = unat (p 36) * 256 + unat (p 37)
     \<and> unat (status md') = unat (p 38) * 256 + unat (p 39)
     \<and> unat (temperature md') = unat (p 58) * 256 + unat (p 59)
     \<and> unat (serial_number md')
         = unat (p 64) * 16777216 + unat (p 65) * 65536 + unat (p 66) * 256 + unat (p 67)
     \<and> modbus_id md' = p 69
     \<and> unat (baud_code md') = unat (p 72) * 256 + unat (p 73)
     \<and> valid md'"
proof -
  define m where "m = md\<lparr>flow_rate := push_bit 16 (push_bit 8 (ucast (p 2)) OR ucast (p 3))
                             OR (push_bit 8 (ucast (p 0)) OR ucast (p 1)),
              forward_total := push_bit 16 (push_bit 8 (ucast (p 14)) OR ucast (p 15))
                             OR (push_bit 8 (ucast (p 12)) OR ucast (p 13)),
              reverse_total := push_bit 16 (push_bit 8 (ucast (p 20)) OR ucast (p 21))
                             OR (push_bit 8 (ucast (p 18)) OR ucast (p 19)),
              pressure := push_bit 8 (ucast (p 36)) OR ucast (p 37),
              temperature := push_bit 8 (ucast (p 58)) OR ucast (p 59),
              status := push_bit 8 (ucast (p 38)) OR ucast (p 39),
              serial_number := push_bit 24 (ucast (p 64)) OR push_bit 16 (ucast (p 65))
                                 OR push_bit 8 (ucast (p 66)) OR ucast (p 67),
              modbus_id := p 69,
              baud_code := push_bit 8 (ucast (p 72)) OR ucast (p 73),
              valid := True\<rparr>"
  have m: "parse_meter_data (\<lambda>i. Some (p i)) md = Some m"
    unfolding m_def by (rule parse_meter_data_payload)
  note f = meter_data_fields [OF m_def]
  show ?thesis
    apply (rule exI [of _ m])
    apply (intro conjI)
              apply (rule m)
             apply (simp only: f pair32)
            apply (simp only: f pair32)
           apply (simp only: f pair32)
          apply (simp only: f cat16)
         apply (simp only: f cat16)
        apply (simp only: f cat16)
       apply (simp only: f be32)
      apply (simp only: f)
     apply (simp only: f cat16)
    apply (rule f)
    done
qed


lemma sample_payload:
  "buffer_of sample_reply 3 = 0x04" "buffer_of sample_reply 4 = 0xD2"
  "buffer_of sample_reply 5 = 0x00" "buffer_of sample_reply 6 = 0x01"
  "buffer_of sample_reply 15 = 0xD6" "buffer_of sample_reply 16 = 0x87"
  "buffer_of sample_reply 17 = 0x00" "buffer_of sample_reply 18 = 0x12"
  "buffer_of sample_reply 21 = 0" "buffer_of sample_reply 22 = 0"
  "buffer_of sample_reply 23 = 0" "buffer_of sample_reply 24 = 0"
  "buffer_of sample_reply 39 = 0x01" "buffer_of sample_reply 40 = 0x2C"
  "buffer_of sample_reply 41 = 0x00" "buffer_of sample_reply 42 = 0x24"
  "buffer_of sample_reply 61 = 0x09" "buffer_of sample_reply 62 = 0xC4"
  "buffer_of sample_reply 67 = 0x12" "buffer_of sample_reply 68 = 0x34"
  "buffer_of sample_reply 69 = 0x56" "buffer_of sample_reply 70 = 0x78"
  "buffer_of sample_reply 72 = 0x01"
  "buffer_of sample_reply 75 = 0x00" "buffer_of sample_reply 76 = 0x01"
  by (simp_all add: buffer_of_def sample_reply_def)

theorem parse_meter_data_fields_witness:
  "\<exists>md'. parse_meter_data (\<lambda>i. Some (buffer_of sample_reply (3 + i))) initial_meter_data = Some md'
     \<and> unat (flow_rate md') = 66770
     \<and> unat (forward_total md') = 1234567
     \<and> unat (reverse_total md') = 0
     \<and> unat (pressure md') = 300
     \<and> unat (status md') = 36
     \<and> unat (temperature md') = 2500
     \<and> unat (serial_number md') = 305419896
     \<and> modbus_id md' = 1
     \<and> unat (baud_code md') = 1
     \<and> valid md'"
  using parse_meter_data_fields [of "\<lambda>i. buffer_of sample_reply (3 + i)" initial_meter_data]
  by (simp add: sample_payload)

theorem parse_meter_data_counterexample:
  "map_option (flow_rate \<circ> snd \<circ> snd)
     (validate_response (buffer_of sample_reply) 81 initial_meter_data) = Some 0x000104D2
   \<and> second_word_low (\<lambda>i. buffer_of sample_reply (3 + i)) 0 = 0x04D20001"
proof
  have n: "(81 :: nat) \<le> MODBUS_RX_BUFFER"
    by (simp add: MODBUS_RX_BUFFER_def)
  have c: "modbus_crc16 (map (buffer_of sample_reply) [0..<81 - 2]) = 0xE25B"
    by (simp add: map_buffer_of sample_length sample_crc)
  show "map_option (flow_rate \<circ> snd \<circ> snd)
     (validate_response (buffer_of sample_reply) 81 initial_meter_data) = Some 0x000104D2"
    unfolding validate_response_eq [OF n] c
    by (simp add: sample_bytes sample_payload MODBUS_SLAVE_ID_def parse_meter_data_in)
  show "second_word_low (\<lambda>i. buffer_of sample_reply (3 + i)) 0 = 0x04D20001"
    by (simp add: second_word_low_def be16_at_def sample_payload)
qed

section \<open>What the loop leaves behind\<close>

lemma recv_iter_silent:
  assumes "set (uart_in s) \<subseteq> {None}"
  shows "recv_iter s = Break s' \<or> recv_iter s = Continue s' \<Longrightarrow>
           rx_len s' = rx_len s \<and> rx_buf s' = rx_buf s \<and> set (uart_in s') \<subseteq> {None}"
  using assms
  by (cases "uart_in s")
     (auto simp add: recv_iter_def idle_check_def split: if_splits)

lemma recv_loop_silent:
  "set (uart_in s) \<subseteq> {None} \<Longrightarrow> recv_loop start s = Some s' \<Longrightarrow>
     rx_len s' = rx_len s \<and> rx_buf s' = rx_buf s"
proof (induction start s rule: recv_loop.induct)
  case (1 start s)
  show ?case
  proof (cases "uptime s - start < 2000")
    case False
    with "1.prems" show ?thesis
      by (simp add: recv_loop.simps [of start s])
  next
    case True
    show ?thesis
    proof (cases "recv_iter s")
      case Fault
      with True "1.prems" show ?thesis
        by (simp add: recv_loop.simps [of start s])
    next
      case (Break s1)
      with True "1.prems" have "s' = s1"
        by (simp add: recv_loop.simps [of start s])
      with Break recv_iter_silent [OF "1.prems"(1), of s1] show ?thesis
        by simp
    next
      case (Continue s1)
      with True "1.prems" have r: "recv_loop start s1 = Some s'"
        by (simp add: recv_loop.simps [of start s])
      from Continue recv_iter_silent [OF "1.prems"(1), of s1]
      have s1: "rx_len s1 = rx_len s" "rx_buf s1 = rx_buf s" "set (uart_in s1) \<subseteq> {None}"
        by simp_all
      from "1.IH" [OF True Continue s1(3) r] s1 show ?thesis
        by simp
    qed
  qed
qed

lemma recv_iter_stores_below:
  "recv_iter s = Break s' \<or> recv_iter s = Continue s' \<Longrightarrow>
     rx_len s \<le> rx_len s' \<and> (\<forall>i\<ge>rx_len s'. rx_buf s' i = rx_buf s i)"
  by (cases "uart_poll_in (uart_in s)")
     (auto simp add: recv_iter_def idle_check_def Let_def split: if_splits option.splits)

lemma recv_loop_stores_below:
  "recv_loop start s = Some s' \<Longrightarrow>
     rx_len s \<le> rx_len s' \<and> (\<forall>i\<ge>rx_len s'. rx_buf s' i = rx_buf s i)"
proof (induction start s rule: recv_loop.induct)
  case (1 start s)
  show ?case
  proof (cases "uptime s - start < 2000")
    case False
    with "1.prems" show ?thesis
      by (simp add: recv_loop.simps [of start s])
  next
    case True
    show ?thesis
    proof (cases "recv_iter s")
      case Fault
      with True "1.prems" show ?thesis
        by (simp add: recv_loop.simps [of start s])
    next
      case (Break s1)
      with True "1.prems" have "s' = s1"
        by (simp add: recv_loop.simps [of start s])
      with Break recv_iter_stores_below [of s s1] show ?thesis
        by simp
    next
      case (Continue s1)
      with True "1.prems" have r: "recv_loop start s1 = Some s'"
        by (simp add: recv_loop.simps [of start s])
      from Continue recv_iter_stores_below [of s s1]
      have s1: "rx_len s \<le> rx_len s1" "\<forall>i\<ge>rx_len s1. rx_buf s1 i = rx_buf s i"
        by simp_all
      from "1.IH" [OF True Continue r] s1 show ?thesis
        by auto
    qed
  qed
qed

text \<open>The loop as \<^verbatim>\<open>read_meter_data\<close> enters it.\<close>

lemma recv_loop_entry:
  fixes buf :: buffer and start :: u32 and replies :: "u8 option list"
  defines "s0 \<equiv> \<lparr>rx_buf = buf, rx_len = 0, last_byte = start, uptime = start, uart_in = replies\<rparr>"
  shows "\<exists>s. recv_loop start s0 = Some s
           \<and> unat (uptime s - start) \<le> 2000
           \<and> (rx_len s > 3 \<longrightarrow> unat (uptime s - last_byte s) \<le> 155)
           \<and> rx_len s \<le> MODBUS_RX_BUFFER
           \<and> (rx_len s = MODBUS_RX_BUFFER \<longrightarrow> uptime s = last_byte s)
           \<and> (unat (uptime s - start) < 2000 \<and> rx_len s < MODBUS_RX_BUFFER
                 \<longrightarrow> rx_len s > 3 \<and> unat (uptime s - last_byte s) > 150)
           \<and> (\<forall>i\<ge>rx_len s. rx_buf s i = buf i)
           \<and> (set replies \<subseteq> {None} \<longrightarrow> rx_len s = 0 \<and> unat (uptime s - start) = 2000)"
proof -
  have "rx_len s0 < MODBUS_RX_BUFFER" "unat (uptime s0 - start) \<le> 2000"
    "5 dvd unat (uptime s0 - start)" "rx_len s0 > 3 \<longrightarrow> unat (uptime s0 - last_byte s0) \<le> 155"
    by (simp_all add: s0_def MODBUS_RX_BUFFER_def)
  from recv_loop_exit [OF this]
  obtain s where s: "recv_loop start s0 = Some s"
    "unat (uptime s - start) \<le> 2000"
    "rx_len s > 3 \<longrightarrow> unat (uptime s - last_byte s) \<le> 155"
    "rx_len s \<le> MODBUS_RX_BUFFER"
    "rx_len s = MODBUS_RX_BUFFER \<longrightarrow> uptime s = last_byte s"
    "unat (uptime s - start) < 2000 \<and> rx_len s < MODBUS_RX_BUFFER
       \<longrightarrow> rx_len s > 3 \<and> unat (uptime s - last_byte s) > 150"
    by blast
  from recv_loop_stores_below [OF s(1)]
  have b: "\<forall>i\<ge>rx_len s. rx_buf s i = buf i"
    by (simp add: s0_def)
  have "rx_len s = 0 \<and> unat (uptime s - start) = 2000" if "set replies \<subseteq> {None}"
  proof -
    from that recv_loop_silent [OF _ s(1)] have z: "rx_len s = 0"
      by (simp add: s0_def)
    with s(6) s(2) show ?thesis
      by (auto simp add: MODBUS_RX_BUFFER_def)
  qed
  with s b show ?thesis
    by blast
qed


lemma validate_response_in_bounds:
  "n \<le> MODBUS_RX_BUFFER \<Longrightarrow> \<exists>r. validate_response buf n md = Some r"
  unfolding validate_response_eq
  by (simp add: parse_meter_data_in)

text \<open>
  C10.  For every sequence of poll results and every prior content of the buffer, the loop
  ends without a store outside the buffer, which the model would report as a failure: the
  length at the exit is at most 256, the buffer differs from its prior content only below
  that length, the two trailer indices of a response of 70 bytes or more are below 256,
  and the validation that follows reads inside the buffer.
\<close>

theorem rx_buffer_in_bounds:
  "\<exists>s. recv_loop start \<lparr>rx_buf = buf, rx_len = 0, last_byte = start, uptime = start,
                          uart_in = replies\<rparr> = Some s
     \<and> rx_len s \<le> MODBUS_RX_BUFFER
     \<and> (\<forall>i. rx_buf s i \<noteq> buf i \<longrightarrow> i < rx_len s)
     \<and> (70 \<le> rx_len s \<longrightarrow> rx_len s - 2 < MODBUS_RX_BUFFER \<and> rx_len s - 1 < MODBUS_RX_BUFFER)
     \<and> (\<exists>r. validate_response (rx_buf s) (rx_len s) md = Some r)"
proof -
  from recv_loop_entry [of start buf replies]
  obtain s where s: "recv_loop start \<lparr>rx_buf = buf, rx_len = 0, last_byte = start, uptime = start,
                          uart_in = replies\<rparr> = Some s"
    and n: "rx_len s \<le> MODBUS_RX_BUFFER"
    and b: "\<forall>i\<ge>rx_len s. rx_buf s i = buf i"
    by (elim exE conjE)
  from b have "\<forall>i. rx_buf s i \<noteq> buf i \<longrightarrow> i < rx_len s"
    by (meson not_le)
  moreover from n have "70 \<le> rx_len s \<longrightarrow> rx_len s - 2 < MODBUS_RX_BUFFER \<and> rx_len s - 1 < MODBUS_RX_BUFFER"
    by auto
  ultimately show ?thesis
    using s n validate_response_in_bounds [OF n] by blast
qed

lemma read_meter_data_eq:
  "\<exists>s. recv_loop (entry_uptime env + 100)
          \<lparr>rx_buf = stack_rx env, rx_len = 0, last_byte = entry_uptime env + 100,
           uptime = entry_uptime env + 100, uart_in = uart_replies env\<rparr> = Some s
       \<and> rx_len s \<le> MODBUS_RX_BUFFER
       \<and> (set (uart_replies env) \<subseteq> {None} \<longrightarrow> rx_len s = 0)
       \<and> read_meter_data env md = validate_response (rx_buf s) (rx_len s) md"
  using recv_loop_entry [of "entry_uptime env + 100" "stack_rx env" "uart_replies env"]
  by (auto simp add: read_meter_data_def Let_def)

lemma read_meter_data_total:
  "\<exists>r lg md'. read_meter_data env md = Some (r, lg, md')"
  using read_meter_data_eq [of env md] validate_response_in_bounds
  by (metis prod_cases3)

lemma recv_iter_byte:
  assumes "uart_in s = Some c # rest" and "rx_len s < MODBUS_RX_BUFFER"
  shows "recv_iter s =
     (if rx_len s + 1 = MODBUS_RX_BUFFER
      then Break (s\<lparr>uart_in := rest, rx_buf := (rx_buf s)(rx_len s := c),
                    rx_len := rx_len s + 1, last_byte := uptime s\<rparr>)
      else Continue (s\<lparr>uart_in := rest, rx_buf := (rx_buf s)(rx_len s := c),
                       rx_len := rx_len s + 1, last_byte := uptime s, uptime := uptime s + 5\<rparr>))"
  using assms by (auto simp add: recv_iter_def idle_check_def Let_def)

lemma recv_loop_fills:
  assumes "recv_loop start s = Some s'"
    and "rx_len s < MODBUS_RX_BUFFER"
    and "MODBUS_RX_BUFFER - rx_len s \<le> length (uart_in s)"
    and "\<forall>r \<in> set (take (MODBUS_RX_BUFFER - rx_len s) (uart_in s)). r \<noteq> None"
    and "unat (uptime s - start) + 5 * (MODBUS_RX_BUFFER - rx_len s - 1) < 2000"
  shows "rx_len s' = MODBUS_RX_BUFFER \<and> uart_in s' = drop (MODBUS_RX_BUFFER - rx_len s) (uart_in s)"
  using assms
proof (induction start s rule: recv_loop.induct)
  case (1 start s)
  from "1.prems"(5) have lt: "uptime s - start < 2000"
    by (simp add: word_lt_2000)
  from "1.prems"(2,3) obtain r rest where u: "uart_in s = r # rest"
    by (cases "uart_in s") auto
  with "1.prems"(2,4) obtain c where r: "r = Some c"
    by (cases r) (auto simp add: take_Cons')
  note it = recv_iter_byte [OF u [unfolded r] "1.prems"(2)]
  show ?case
  proof (cases "rx_len s + 1 = MODBUS_RX_BUFFER")
    case True
    then have "MODBUS_RX_BUFFER - rx_len s = Suc 0"
      by simp
    with True it lt "1.prems"(1) u show ?thesis
      by (auto simp add: recv_loop.simps [of start s])
  next
    case False
    let ?s1 = "s\<lparr>uart_in := rest, rx_buf := (rx_buf s)(rx_len s := c),
                 rx_len := rx_len s + 1, last_byte := uptime s, uptime := uptime s + 5\<rparr>"
    from False it have c: "recv_iter s = Continue ?s1"
      by simp
    with lt "1.prems"(1) have l: "recv_loop start ?s1 = Some s'"
      by (simp add: recv_loop.simps [of start s])
    have p2: "rx_len ?s1 < MODBUS_RX_BUFFER"
      using False "1.prems"(2) by simp
    have p3: "MODBUS_RX_BUFFER - rx_len ?s1 \<le> length (uart_in ?s1)"
      using "1.prems"(3) u by simp
    have d: "MODBUS_RX_BUFFER - rx_len s = Suc (MODBUS_RX_BUFFER - rx_len ?s1)"
      using "1.prems"(2) by simp
    have p4: "\<forall>r \<in> set (take (MODBUS_RX_BUFFER - rx_len ?s1) (uart_in ?s1)). r \<noteq> None"
      using "1.prems"(4) unfolding d u by simp
    have e: "uptime ?s1 - start = (uptime s - start) + 5"
      by simp
    have "unat (uptime ?s1 - start) \<le> unat (uptime s - start) + 5"
      unfolding e by (simp add: unat_word_ariths)
    then have p5: "unat (uptime ?s1 - start) + 5 * (MODBUS_RX_BUFFER - rx_len ?s1 - 1) < 2000"
      using "1.prems"(5) p2 by simp
    from "1.IH" [OF lt c l p2 p3 p4 p5] show ?thesis
      unfolding d u by simp
  qed
qed



theorem rx_buffer_in_bounds_witness:
  "\<exists>s. recv_loop 0 \<lparr>rx_buf = (\<lambda>i. 0), rx_len = 0, last_byte = 0, uptime = 0,
                      uart_in = replicate 300 (Some 0xAA)\<rparr> = Some s
      \<and> rx_len s = 256
      \<and> rx_len s - 2 < MODBUS_RX_BUFFER \<and> rx_len s - 1 < MODBUS_RX_BUFFER
      \<and> (\<exists>r. validate_response (rx_buf s) (rx_len s) initial_meter_data = Some r)"
proof -
  let ?r = "replicate 300 (Some (0xAA :: u8))"
  let ?s0 = "\<lparr>rx_buf = (\<lambda>i. 0), rx_len = 0, last_byte = 0, uptime = 0, uart_in = ?r\<rparr>"
  from rx_buffer_in_bounds [of 0 "\<lambda>i. 0" ?r initial_meter_data]
  obtain s where s: "recv_loop 0 ?s0 = Some s"
    and b: "70 \<le> rx_len s \<longrightarrow> rx_len s - 2 < MODBUS_RX_BUFFER \<and> rx_len s - 1 < MODBUS_RX_BUFFER"
    and v: "\<exists>r. validate_response (rx_buf s) (rx_len s) initial_meter_data = Some r"
    by blast
  have "rx_len s = MODBUS_RX_BUFFER \<and> uart_in s = drop (MODBUS_RX_BUFFER - rx_len ?s0) (uart_in ?s0)"
    by (rule recv_loop_fills [OF s]) (simp_all add: MODBUS_RX_BUFFER_def)
  then have "rx_len s = 256"
    by (simp add: MODBUS_RX_BUFFER_def)
  with s b v show ?thesis
    by auto
qed

text \<open>
  C9.  Whenever \<^verbatim>\<open>read_meter_data\<close> returns a value other than 0, the reading it leaves
  is the reading it found with the valid flag cleared: flow, the totals, pressure,
  temperature, status, serial number, bus address and baud code are the ones of before.
\<close>

theorem read_meter_data_failure_frame:
  assumes "read_meter_data env md = Some (r, lg, md')" and "r \<noteq> 0"
  shows "md' = md\<lparr>valid := False\<rparr>
     \<and> flow_rate md' = flow_rate md \<and> forward_total md' = forward_total md
     \<and> reverse_total md' = reverse_total md \<and> pressure md' = pressure md
     \<and> temperature md' = temperature md \<and> status md' = status md
     \<and> serial_number md' = serial_number md \<and> modbus_id md' = modbus_id md
     \<and> baud_code md' = baud_code md \<and> \<not> valid md'
     \<and> lg \<noteq> Meter_data_read_successfully"
  using read_meter_data_eq [of env md]
proof (elim exE conjE)
  fix s
  assume n: "rx_len s \<le> MODBUS_RX_BUFFER"
    and e: "read_meter_data env md = validate_response (rx_buf s) (rx_len s) md"
  from assms(1) have "validate_response (rx_buf s) (rx_len s) md = Some (r, lg, md')"
    unfolding e .
  then have "md' = md\<lparr>valid := False\<rparr> \<and> lg \<noteq> Meter_data_read_successfully"
    unfolding validate_response_eq [OF n] using assms(2)
    by (auto split: if_splits)
  then show ?thesis
    by simp
qed

lemma read_meter_data_silent:
  assumes "set (uart_replies env) \<subseteq> {None}"
  shows "read_meter_data env md = Some (- 1, Incomplete_response 0, md\<lparr>valid := False\<rparr>)"
  using read_meter_data_eq [of env md]
proof (elim exE conjE)
  fix s
  assume "set (uart_replies env) \<subseteq> {None} \<longrightarrow> rx_len s = 0"
    and e: "read_meter_data env md = validate_response (rx_buf s) (rx_len s) md"
  with assms have "rx_len s = 0"
    by simp
  with e show ?thesis
    by (simp add: validate_response_def)
qed

theorem read_meter_data_failure_frame_witness:
  "read_meter_data \<lparr>entry_uptime = 0, uart_replies = [], stack_tx = (\<lambda>i. 0), stack_rx = (\<lambda>i. 0)\<rparr>
       (initial_meter_data\<lparr>flow_rate := 66770, valid := True\<rparr>)
     = Some (- 1, Incomplete_response 0, initial_meter_data\<lparr>flow_rate := 66770, valid := False\<rparr>)
   \<and> flow_rate (initial_meter_data\<lparr>flow_rate := 66770, valid := False\<rparr>) = 66770"
proof -
  let ?env = "\<lparr>entry_uptime = 0, uart_replies = [], stack_tx = (\<lambda>i. 0), stack_rx = (\<lambda>i. 0)\<rparr>"
  let ?md = "initial_meter_data\<lparr>flow_rate := 66770, valid := True\<rparr>"
  have r: "read_meter_data ?env ?md = Some (- 1, Incomplete_response 0, ?md\<lparr>valid := False\<rparr>)"
    by (rule read_meter_data_silent) simp
  from read_meter_data_failure_frame [OF r] have "flow_rate (?md\<lparr>valid := False\<rparr>) = flow_rate ?md"
    by simp
  with r show ?thesis
    by simp
qed

section \<open>Receiving a whole frame\<close>

lemma recv_loop_no_fault:
  "rx_len s < MODBUS_RX_BUFFER \<Longrightarrow> \<exists>s'. recv_loop start s = Some s'"
proof (induction start s rule: recv_loop.induct)
  case (1 start s)
  show ?case
  proof (cases "uptime s - start < 2000")
    case False
    then show ?thesis
      by (simp add: recv_loop.simps [of start s])
  next
    case True
    show ?thesis
    proof (cases "recv_iter s")
      case Fault
      with recv_iter_not_Fault [OF "1.prems"] show ?thesis by simp
    next
      case (Break s1)
      with True show ?thesis
        by (simp add: recv_loop.simps [of start s])
    next
      case (Continue s1)
      from "1.IH" [OF True Continue recv_iter_Continue(3) [OF Continue "1.prems"]]
      show ?thesis
        using True Continue by (simp add: recv_loop.simps [of start s])
    qed
  qed
qed

lemma recv_loop_receive:
  assumes "uart_in s = map Some xs"
    and "rx_len s + length xs < MODBUS_RX_BUFFER"
    and "unat (uptime s - start) + 5 * length xs \<le> 2000"
  shows "\<exists>s'. recv_loop start s = Some s' \<and> rx_len s' = rx_len s + length xs
           \<and> (\<forall>i<length xs. rx_buf s' (rx_len s + i) = xs ! i)
           \<and> (\<forall>i<rx_len s. rx_buf s' i = rx_buf s i)"
  using assms
proof (induction xs arbitrary: s)
  case Nil
  then have "rx_len s < MODBUS_RX_BUFFER" by simp
  from recv_loop_no_fault [OF this, of start] obtain s' where s': "recv_loop start s = Some s'"
    by blast
  from Nil.prems(1) have "set (uart_in s) \<subseteq> {None}" by simp
  from recv_loop_silent [OF this s'] s' show ?case
    by simp
next
  case (Cons x xs)
  let ?s1 = "s\<lparr>uart_in := map Some xs, rx_buf := (rx_buf s)(rx_len s := x),
               rx_len := rx_len s + 1, last_byte := uptime s, uptime := uptime s + 5\<rparr>"
  from Cons.prems(3) have n: "unat (uptime s - start) < 2000"
    by simp
  then have lt: "uptime s - start < 2000"
    by (simp add: word_lt_2000)
  from Cons.prems(2) have len: "rx_len s < MODBUS_RX_BUFFER" "rx_len s + 1 \<noteq> MODBUS_RX_BUFFER"
    by simp_all
  from Cons.prems(1) have u: "uart_in s = Some x # map Some xs"
    by simp
  from recv_iter_byte [OF u len(1)] len(2) have it: "recv_iter s = Continue ?s1"
    by simp
  then have step: "recv_loop start s = recv_loop start ?s1"
    using lt by (simp add: recv_loop.simps [of start s])
  have e: "uptime ?s1 - start = (uptime s - start) + 5"
    by simp
  have "unat (uptime ?s1 - start) = unat (uptime s - start) + 5"
    unfolding e using n by (simp add: unat_word_ariths)
  then have t: "unat (uptime ?s1 - start) + 5 * length xs \<le> 2000"
    using Cons.prems(3) by simp
  have "uart_in ?s1 = map Some xs" "rx_len ?s1 + length xs < MODBUS_RX_BUFFER"
    using Cons.prems(2) by simp_all
  from Cons.IH [OF this t] obtain s' where s': "recv_loop start ?s1 = Some s'"
    "rx_len s' = rx_len ?s1 + length xs"
    "\<forall>i<length xs. rx_buf s' (rx_len ?s1 + i) = xs ! i"
    "\<forall>i<rx_len ?s1. rx_buf s' i = rx_buf ?s1 i"
    by blast
  have "\<forall>i<length (x # xs). rx_buf s' (rx_len s + i) = (x # xs) ! i"
  proof (intro allI impI)
    fix i assume i: "i < length (x # xs)"
    show "rx_buf s' (rx_len s + i) = (x # xs) ! i"
    proof (cases i)
      case 0
      with s'(4) show ?thesis by simp
    next
      case (Suc j)
      with i s'(3) show ?thesis by simp
    qed
  qed
  moreover have "\<forall>i<rx_len s. rx_buf s' i = rx_buf s i"
    using s'(4) by simp
  ultimately show ?case
    using s'(1,2) step by simp
qed

lemma read_meter_data_frame:
  assumes "uart_replies env = map Some xs" and "length xs < MODBUS_RX_BUFFER"
  shows "read_meter_data env md =
      validate_response (\<lambda>i. if i < length xs then xs ! i else stack_rx env i) (length xs) md"
proof -
  let ?start = "entry_uptime env + 100"
  let ?s0 = "\<lparr>rx_buf = stack_rx env, rx_len = 0, last_byte = ?start, uptime = ?start,
              uart_in = uart_replies env\<rparr>"
  have t: "unat (uptime ?s0 - ?start) + 5 * length xs \<le> 2000"
    using assms(2) by (simp add: MODBUS_RX_BUFFER_def)
  have "uart_in ?s0 = map Some xs" "rx_len ?s0 + length xs < MODBUS_RX_BUFFER"
    using assms by simp_all
  from recv_loop_receive [OF this t] obtain s where s: "recv_loop ?start ?s0 = Some s"
    "rx_len s = length xs" "\<forall>i<length xs. rx_buf s i = xs ! i"
    by auto
  from recv_loop_stores_below [OF s(1)] have "\<forall>i\<ge>length xs. rx_buf s i = stack_rx env i"
    using s(2) by simp
  with s(3) have "rx_buf s = (\<lambda>i. if i < length xs then xs ! i else stack_rx env i)"
    by (intro ext) (simp add: not_less)
  with s(1,2) show ?thesis
    by (simp add: read_meter_data_def Let_def)
qed

lemma read_meter_data_clean_frame:
  assumes "uart_replies env = map Some xs" and "length xs < MODBUS_RX_BUFFER"
    and "stack_rx env = (\<lambda>i. 0)"
  shows "read_meter_data env md = validate_response (buffer_of xs) (length xs) md"
proof -
  have "(\<lambda>i. if i < length xs then xs ! i else stack_rx env i) = buffer_of xs"
    by (intro ext) (simp add: buffer_of_def assms(3))
  with read_meter_data_frame [OF assms(1,2), of md] show ?thesis
    by simp
qed

lemma read_meter_data_sample:
  "read_meter_data \<lparr>entry_uptime = t, uart_replies = map Some sample_reply,
                     stack_tx = tx, stack_rx = (\<lambda>i. 0)\<rparr> md
   = validate_response (buffer_of sample_reply) 81 md"
  using read_meter_data_clean_frame [of "\<lparr>entry_uptime = t, uart_replies = map Some sample_reply,
                     stack_tx = tx, stack_rx = (\<lambda>i. 0)\<rparr>" sample_reply md]
  by (simp add: sample_length MODBUS_RX_BUFFER_def)

section \<open>Readiness\<close>

lemma run_events_snoc: "run_events g (evs @ [e]) = handle (run_events g evs) e"
  by (simp add: run_events_def)

lemma mqtt_connected_handle:
  "mqtt_connected (handle g e) =
     (if e = Mqtt (MQTT_EVT_CONNACK 0) then True
      else if e = Net NET_EVENT_WIFI_DISCONNECT_RESULT \<or> e = Mqtt MQTT_EVT_DISCONNECT
              \<or> (\<exists>r. r \<noteq> 0 \<and> e = Mqtt (MQTT_EVT_CONNACK r)) then False
      else mqtt_connected g)"
proof (cases e)
  case (Net n)
  then show ?thesis
    by (cases n) (simp_all add: net_deliver_def)
next
  case (Mqtt m)
  then show ?thesis
    by (cases m) auto
qed

lemma mqtt_connected_emit: "mqtt_connected (emit a g) = mqtt_connected g"
  by (simp add: emit_def)

text \<open>
  C3.  Started from the initial state, after any sequence of network and MQTT events
  \<^verbatim>\<open>mqtt_connected\<close> is true exactly when the sequence holds a successful CONNACK with no
  link disconnect, no session disconnect and no refused CONNACK behind it.  In every state
  the only event that turns the flag from false to true is a successful CONNACK, a link
  disconnect and a session disconnect leave it false, and sending the connect request leaves
  it as it is.  Whether a link or an address was reported before plays no part.
\<close>

theorem mqtt_connected_by_connack_only:
  "(mqtt_connected (run_events initial_globals evs) =
      (\<exists>pre post. evs = pre @ Mqtt (MQTT_EVT_CONNACK 0) # post
         \<and> Net NET_EVENT_WIFI_DISCONNECT_RESULT \<notin> set post
         \<and> Mqtt MQTT_EVT_DISCONNECT \<notin> set post
         \<and> (\<forall>r. Mqtt (MQTT_EVT_CONNACK r) \<in> set post \<longrightarrow> r = 0)))
   \<and> (\<not> mqtt_connected g \<and> mqtt_connected (handle g e) \<longrightarrow> e = Mqtt (MQTT_EVT_CONNACK 0))
   \<and> \<not> mqtt_connected (handle g (Net NET_EVENT_WIFI_DISCONNECT_RESULT))
   \<and> \<not> mqtt_connected (handle g (Mqtt MQTT_EVT_DISCONNECT))
   \<and> mqtt_connected (emit Mqtt_connect g) = mqtt_connected g"
proof (intro conjI)
  show "mqtt_connected (run_events initial_globals evs) =
      (\<exists>pre post. evs = pre @ Mqtt (MQTT_EVT_CONNACK 0) # post
         \<and> Net NET_EVENT_WIFI_DISCONNECT_RESULT \<notin> set post
         \<and> Mqtt MQTT_EVT_DISCONNECT \<notin> set post
         \<and> (\<forall>r. Mqtt (MQTT_EVT_CONNACK r) \<in> set post \<longrightarrow> r = 0))"
    (is "?L evs = ?R evs")
  proof (induction evs rule: rev_induct)
    case Nil
    show ?case
      by (simp add: run_events_def initial_globals_def)
  next
    case (snoc e evs)
    let ?clears = "e = Net NET_EVENT_WIFI_DISCONNECT_RESULT \<or> e = Mqtt MQTT_EVT_DISCONNECT
              \<or> (\<exists>r. r \<noteq> 0 \<and> e = Mqtt (MQTT_EVT_CONNACK r))"
    have R: "?R (evs @ [e]) = (e = Mqtt (MQTT_EVT_CONNACK 0) \<or> (\<not> ?clears \<and> ?R evs))"
    proof
      assume "?R (evs @ [e])"
      then obtain pre post where d: "evs @ [e] = pre @ Mqtt (MQTT_EVT_CONNACK 0) # post"
        and p: "Net NET_EVENT_WIFI_DISCONNECT_RESULT \<notin> set post"
          "Mqtt MQTT_EVT_DISCONNECT \<notin> set post"
          "\<forall>r. Mqtt (MQTT_EVT_CONNACK r) \<in> set post \<longrightarrow> r = 0"
        by blast
      show "e = Mqtt (MQTT_EVT_CONNACK 0) \<or> (\<not> ?clears \<and> ?R evs)"
      proof (cases post rule: rev_cases)
        case Nil
        with d show ?thesis by simp
      next
        case (snoc post' x)
        with d have "evs @ [e] = (pre @ Mqtt (MQTT_EVT_CONNACK 0) # post') @ [x]"
          by simp
        then have evs: "evs = pre @ Mqtt (MQTT_EVT_CONNACK 0) # post'" and x: "x = e"
          by (simp_all only: append1_eq_conv)
        from p snoc x have "\<not> ?clears \<or> e = Mqtt (MQTT_EVT_CONNACK 0)"
          by auto
        moreover from p snoc evs have "?R evs"
          by auto
        ultimately show ?thesis by blast
      qed
    next
      assume a: "e = Mqtt (MQTT_EVT_CONNACK 0) \<or> (\<not> ?clears \<and> ?R evs)"
      show "?R (evs @ [e])"
      proof (cases "e = Mqtt (MQTT_EVT_CONNACK 0)")
        case True
        then have "evs @ [e] = evs @ Mqtt (MQTT_EVT_CONNACK 0) # []" by simp
        then show ?thesis by (metis empty_iff empty_set)
      next
        case False
        with a obtain pre post where nc: "\<not> ?clears"
          and d: "evs = pre @ Mqtt (MQTT_EVT_CONNACK 0) # post"
          and p: "Net NET_EVENT_WIFI_DISCONNECT_RESULT \<notin> set post"
          "Mqtt MQTT_EVT_DISCONNECT \<notin> set post"
          "\<forall>r. Mqtt (MQTT_EVT_CONNACK r) \<in> set post \<longrightarrow> r = 0"
          by blast
        have "evs @ [e] = pre @ Mqtt (MQTT_EVT_CONNACK 0) # (post @ [e])"
          using d by simp
        moreover have "Net NET_EVENT_WIFI_DISCONNECT_RESULT \<notin> set (post @ [e])"
          "Mqtt MQTT_EVT_DISCONNECT \<notin> set (post @ [e])"
          "\<forall>r. Mqtt (MQTT_EVT_CONNACK r) \<in> set (post @ [e]) \<longrightarrow> r = 0"
          using p nc by auto
        ultimately show ?thesis by blast
      qed
    qed
    show ?case
      unfolding R run_events_snoc mqtt_connected_handle using snoc.IH by auto
  qed
  show "\<not> mqtt_connected g \<and> mqtt_connected (handle g e) \<longrightarrow> e = Mqtt (MQTT_EVT_CONNACK 0)"
    unfolding mqtt_connected_handle by (auto split: if_splits)
  show "\<not> mqtt_connected (handle g (Net NET_EVENT_WIFI_DISCONNECT_RESULT))"
    unfolding mqtt_connected_handle by simp
  show "\<not> mqtt_connected (handle g (Mqtt MQTT_EVT_DISCONNECT))"
    unfolding mqtt_connected_handle by simp
  show "mqtt_connected (emit Mqtt_connect g) = mqtt_connected g"
    by (rule mqtt_connected_emit)
qed

theorem mqtt_connected_by_connack_only_witness:
  "mqtt_connected (run_events initial_globals
      [Net (NET_EVENT_WIFI_CONNECT_RESULT 0), Net NET_EVENT_IPV4_ADDR_ADD,
       Mqtt (MQTT_EVT_CONNACK 0), Mqtt (MQTT_EVT_PUBACK 7)])
   \<and> \<not> mqtt_connected (run_events initial_globals
      [Net (NET_EVENT_WIFI_CONNECT_RESULT 0), Net NET_EVENT_IPV4_ADDR_ADD,
       Mqtt (MQTT_EVT_CONNACK 0), Net NET_EVENT_WIFI_DISCONNECT_RESULT])"
proof
  let ?pre = "[Net (NET_EVENT_WIFI_CONNECT_RESULT 0), Net NET_EVENT_IPV4_ADDR_ADD]"
  let ?post = "[Mqtt (MQTT_EVT_PUBACK 7)]"
  have "?pre @ Mqtt (MQTT_EVT_CONNACK 0) # ?post = ?pre @ Mqtt (MQTT_EVT_CONNACK 0) # ?post
         \<and> Net NET_EVENT_WIFI_DISCONNECT_RESULT \<notin> set ?post
         \<and> Mqtt MQTT_EVT_DISCONNECT \<notin> set ?post
         \<and> (\<forall>r. Mqtt (MQTT_EVT_CONNACK r) \<in> set ?post \<longrightarrow> r = 0)"
    by simp
  then have "\<exists>pre post. ?pre @ Mqtt (MQTT_EVT_CONNACK 0) # ?post = pre @ Mqtt (MQTT_EVT_CONNACK 0) # post
         \<and> Net NET_EVENT_WIFI_DISCONNECT_RESULT \<notin> set post
         \<and> Mqtt MQTT_EVT_DISCONNECT \<notin> set post
         \<and> (\<forall>r. Mqtt (MQTT_EVT_CONNACK r) \<in> set post \<longrightarrow> r = 0)"
    by (intro exI)
  with mqtt_connected_by_connack_only [THEN conjunct1, of "?pre @ Mqtt (MQTT_EVT_CONNACK 0) # ?post"]
  show "mqtt_connected (run_events initial_globals
      [Net (NET_EVENT_WIFI_CONNECT_RESULT 0), Net NET_EVENT_IPV4_ADDR_ADD,
       Mqtt (MQTT_EVT_CONNACK 0), Mqtt (MQTT_EVT_PUBACK 7)])"
    by simp
  have "run_events initial_globals
      [Net (NET_EVENT_WIFI_CONNECT_RESULT 0), Net NET_EVENT_IPV4_ADDR_ADD,
       Mqtt (MQTT_EVT_CONNACK 0), Net NET_EVENT_WIFI_DISCONNECT_RESULT]
    = handle (run_events initial_globals
      [Net (NET_EVENT_WIFI_CONNECT_RESULT 0), Net NET_EVENT_IPV4_ADDR_ADD,
       Mqtt (MQTT_EVT_CONNACK 0)]) (Net NET_EVENT_WIFI_DISCONNECT_RESULT)"
    by (simp add: run_events_def)
  with mqtt_connected_by_connack_only [THEN conjunct2, THEN conjunct2, THEN conjunct1]
  show "\<not> mqtt_connected (run_events initial_globals
      [Net (NET_EVENT_WIFI_CONNECT_RESULT 0), Net NET_EVENT_IPV4_ADDR_ADD,
       Mqtt (MQTT_EVT_CONNACK 0), Net NET_EVENT_WIFI_DISCONNECT_RESULT])"
    by simp
qed

theorem mqtt_connected_counterexample:
  "mqtt_connected (run_events initial_globals
      [Net (NET_EVENT_WIFI_CONNECT_RESULT 0), Net NET_EVENT_IPV4_ADDR_ADD,
       Net NET_EVENT_WIFI_DISCONNECT_RESULT, Mqtt (MQTT_EVT_CONNACK 0)])
   \<and> \<not> link_established_since_disconnect
      [Net (NET_EVENT_WIFI_CONNECT_RESULT 0), Net NET_EVENT_IPV4_ADDR_ADD,
       Net NET_EVENT_WIFI_DISCONNECT_RESULT, Mqtt (MQTT_EVT_CONNACK 0)]"
  by (simp add: run_events_def net_deliver_def initial_globals_def k_sem_give_def)

section \<open>Telemetry\<close>

lemma and_4_bit: "((w :: u16) AND 0x0004 \<noteq> 0) = bit w 2"
  using and_exp_eq_0_iff_not_bit [of w 2] by simp

lemma and_32_bit: "((w :: u16) AND 0x0020 \<noteq> 0) = bit w 5"
  using and_exp_eq_0_iff_not_bit [of w 5] by simp

text \<open>
  C4.  In every state \<^verbatim>\<open>send_telemetry\<close> returns -ENOTCONN when \<^verbatim>\<open>mqtt_connected\<close> is
  false and -EINVAL when it is true and the reading is not valid, and leaves the state,
  the trace of platform calls included, as it was.  Otherwise it makes one publish on the
  telemetry topic with the fields flowRate, forwardTotal, reverseTotal, pressure,
  temperature, status, leak, empty and lowBattery in this order, leak and empty both 1
  exactly when bit 0x0004 of the status is set and lowBattery 1 exactly when bit 0x0020 is
  set, and returns what the publish returned.  The status text of the log is "(Normal)"
  exactly for the status 0.
\<close>

theorem send_telemetry_gate:
  "(\<not> mqtt_connected g \<longrightarrow> send_telemetry rc g = (Neg ENOTCONN, g))
   \<and> (mqtt_connected g \<and> \<not> valid (meter_data g) \<longrightarrow> send_telemetry rc g = (Neg EINVAL, g))
   \<and> (mqtt_connected g \<and> valid (meter_data g) \<longrightarrow>
        send_telemetry rc g =
          (Ret rc,
           g\<lparr>trace := trace g @
              [Mqtt_publish TELEMETRY_TOPIC
                 [(''flowRate'', JUnsigned (unat (flow_rate (meter_data g)))),
                  (''forwardTotal'', JUnsigned (unat (forward_total (meter_data g)))),
                  (''reverseTotal'', JUnsigned (unat (reverse_total (meter_data g)))),
                  (''pressure'', JUnsigned (unat (pressure (meter_data g)))),
                  (''temperature'', JUnsigned (unat (temperature (meter_data g)))),
                  (''status'', JUnsigned (unat (status (meter_data g)))),
                  (''leak'', JSigned (if bit (status (meter_data g)) 2 then 1 else 0)),
                  (''empty'', JSigned (if bit (status (meter_data g)) 2 then 1 else 0)),
                  (''lowBattery'', JSigned (if bit (status (meter_data g)) 5 then 1 else 0))]]\<rparr>))
   \<and> (status_summary st = ''(Normal)'') = (st = 0)"
  by (simp add: send_telemetry_def telemetry_payload_def emit_def and_4_bit and_32_bit
      status_summary_def)

text \<open>
  Disconnected, connected without a valid reading, and connected with the status words 0x0024,
  0x0000, 0x0004 and 0x0020.
\<close>

theorem send_telemetry_gate_witness:
  "send_telemetry 0 initial_globals = (Neg ENOTCONN, initial_globals)
   \<and> send_telemetry 0 (initial_globals\<lparr>mqtt_connected := True\<rparr>)
       = (Neg EINVAL, initial_globals\<lparr>mqtt_connected := True\<rparr>)
   \<and> send_telemetry 0 (connected_with_status 0x0024) =
       (Ret 0,
        (connected_with_status 0x0024)\<lparr>trace :=
          [Mqtt_publish ''v1/devices/me/telemetry''
             [(''flowRate'', JUnsigned 0), (''forwardTotal'', JUnsigned 0),
              (''reverseTotal'', JUnsigned 0), (''pressure'', JUnsigned 0),
              (''temperature'', JUnsigned 0), (''status'', JUnsigned 36),
              (''leak'', JSigned 1), (''empty'', JSigned 1), (''lowBattery'', JSigned 1)]]\<rparr>)
   \<and> indications (send_telemetry 0 (connected_with_status 0x0000)) =
       [(''status'', JUnsigned 0), (''leak'', JSigned 0), (''empty'', JSigned 0),
        (''lowBattery'', JSigned 0)]
   \<and> indications (send_telemetry 0 (connected_with_status 0x0004)) =
       [(''status'', JUnsigned 4), (''leak'', JSigned 1), (''empty'', JSigned 1),
        (''lowBattery'', JSigned 0)]
   \<and> indications (send_telemetry 0 (connected_with_status 0x0020)) =
       [(''status'', JUnsigned 32), (''leak'', JSigned 0), (''empty'', JSigned 0),
        (''lowBattery'', JSigned 1)]
   \<and> status_summary 0x0000 = ''(Normal)'' \<and> status_summary 0x0004 = ''(Empty!)''
   \<and> status_summary 0x0020 = ''(Low Battery!)'' \<and> status_summary 0x0024 = ''(Empty!)''"
  using send_telemetry_gate [of initial_globals 0 0]
    send_telemetry_gate [of "initial_globals\<lparr>mqtt_connected := True\<rparr>" 0 0]
    send_telemetry_gate [of "connected_with_status 0x0024" 0 4]
    send_telemetry_gate [of "connected_with_status 0x0000" 0 32]
    send_telemetry_gate [of "connected_with_status 0x0004" 0 36]
    send_telemetry_gate [of "connected_with_status 0x0020" 0 1]
  by (simp add: connected_with_status_def initial_globals_def initial_meter_data_def
      indications_def TELEMETRY_TOPIC_def status_summary_def)

section \<open>The attribute log\<close>

lemma attributes_log_emit:
  "\<not> is_attributes_publish a \<Longrightarrow> attributes_log (emit a g) = attributes_log g"
  by (simp add: attributes_log_def emit_def)

lemma attributes_log_net_deliver: "attributes_log (net_deliver e g) = attributes_log g"
  by (cases e) (simp_all add: attributes_log_def net_deliver_def)

lemma attributes_log_net_deliver_all:
  "attributes_log (foldl (\<lambda>g e. net_deliver e g) g evs) = attributes_log g"
  by (induction evs arbitrary: g) (simp_all add: attributes_log_net_deliver)

lemma attributes_log_mqtt_evt_handler: "attributes_log (mqtt_evt_handler e g) = attributes_log g"
  by (cases e) (simp_all add: attributes_log_def)

lemma attributes_log_mqtt_evts:
  "attributes_log (foldl (\<lambda>g e. mqtt_evt_handler e g) g evs) = attributes_log g"
  by (induction evs arbitrary: g) (simp_all add: attributes_log_mqtt_evt_handler)

lemma attributes_log_mqtt_input: "attributes_log (mqtt_input evs g) = attributes_log g"
  by (simp add: mqtt_input_def attributes_log_mqtt_evts attributes_log_emit)

lemma attributes_log_mqtt_disconnect: "attributes_log (mqtt_disconnect evs g) = attributes_log g"
  by (simp add: mqtt_disconnect_def attributes_log_mqtt_evts attributes_log_emit)

lemma attributes_log_fields:
  "attributes_log (g\<lparr>wifi_connected := w\<rparr>) = attributes_log g"
  "attributes_log (g\<lparr>ipv4_obtained := i\<rparr>) = attributes_log g"
  "attributes_log (g\<lparr>mqtt_connected := c\<rparr>) = attributes_log g"
  "attributes_log (g\<lparr>meter_data := m\<rparr>) = attributes_log g"
  "attributes_log (g\<lparr>loop_count := n\<rparr>) = attributes_log g"
  by (simp_all add: attributes_log_def)

lemma attributes_log_sem_take:
  "attributes_log (snd (k_sem_take_wifi_connected evs g)) = attributes_log g"
  "attributes_log (snd (k_sem_take_ipv4_obtained evs g)) = attributes_log g"
  by (simp_all add: k_sem_take_wifi_connected_def k_sem_take_ipv4_obtained_def Let_def
      attributes_log_fields attributes_log_net_deliver_all)

lemma attributes_log_wifi_try: "attributes_log (snd (wifi_try a g)) = attributes_log g"
proof -
  let ?g1 = "emit Wifi_connect_request (g\<lparr>wifi_connected := 0, ipv4_obtained := 0\<rparr>)"
  have g1: "attributes_log ?g1 = attributes_log g"
    by (simp add: attributes_log_emit attributes_log_fields)
  obtain ok2 g2 where t2: "k_sem_take_wifi_connected (link_events a) ?g1 = (ok2, g2)"
    by (cases "k_sem_take_wifi_connected (link_events a) ?g1")
  obtain ok3 g3 where t3: "k_sem_take_ipv4_obtained (addr_events a) g2 = (ok3, g3)"
    by (cases "k_sem_take_ipv4_obtained (addr_events a) g2")
  from attributes_log_sem_take(1) [of "link_events a" ?g1] t2 g1
  have g2: "attributes_log g2 = attributes_log g" by simp
  from attributes_log_sem_take(2) [of "addr_events a" g2] t3 g2
  have g3: "attributes_log g3 = attributes_log g" by simp
  show ?thesis
    unfolding wifi_try_def Let_def t2
    by (cases ok2; cases ok3) (simp_all add: t3 attributes_log_emit g1 g2 g3)
qed

lemma attributes_log_wifi_retry_loop:
  "attributes_log (snd (wifi_retry_loop env retry g)) = attributes_log g"
proof (induction env retry g rule: wifi_retry_loop.induct)
  case (1 env retry g)
  show ?case
  proof (cases "retry < 10")
    case False
    then show ?thesis by (simp add: wifi_retry_loop.simps [of env retry g])
  next
    case True
    obtain ok g' where t: "wifi_try (env retry) g = (ok, g')"
      by (cases "wifi_try (env retry) g")
    with attributes_log_wifi_try [of "env retry" g] have g': "attributes_log g' = attributes_log g"
      by simp
    show ?thesis
    proof (cases ok)
      case True
      with \<open>retry < 10\<close> t g' show ?thesis
        by (simp add: wifi_retry_loop.simps [of env retry g])
    next
      case False
      with "1.IH" [OF \<open>retry < 10\<close> t [symmetric]] \<open>retry < 10\<close> t g' show ?thesis
        by (simp add: wifi_retry_loop.simps [of env retry g])
    qed
  qed
qed

lemma attributes_log_wifi_connect: "attributes_log (snd (wifi_connect env g)) = attributes_log g"
  by (simp add: wifi_connect_def attributes_log_wifi_retry_loop)

lemma attributes_log_connack_wait:
  "attributes_log (snd (connack_wait sl i timeout g)) = attributes_log g"
proof (induction sl i timeout g rule: connack_wait.induct)
  case (1 sl i timeout g)
  show ?case
  proof (cases "timeout > 0")
    case False
    then show ?thesis by (simp add: connack_wait.simps [of sl i timeout g])
  next
    case True
    let ?g1 = "emit (Poll 500 (poll_ret (sl i))) g"
    let ?g2 = "if poll_ret (sl i) > 0 \<and> pollin (sl i) then mqtt_input (input_events (sl i)) ?g1 else ?g1"
    have g2: "attributes_log ?g2 = attributes_log g"
      by (simp add: attributes_log_mqtt_input attributes_log_emit)
    show ?thesis
    proof (cases "mqtt_connected ?g2")
      case c: True
      with True g2 show ?thesis
        by (simp add: connack_wait.simps [of sl i timeout g] Let_def)
    next
      case c: False
      from "1.IH" [OF True refl refl refl c]
      have "attributes_log (snd (connack_wait sl (i + 1) (timeout - 500) (emit (Sleep 500) ?g2)))
          = attributes_log g"
        using g2 by (simp add: attributes_log_emit)
      with True c show ?thesis
        by (simp add: connack_wait.simps [of sl i timeout g] Let_def)
    qed
  qed
qed

lemma attributes_log_tb_try: "attributes_log (snd (tb_try a g)) = attributes_log g"
proof -
  let ?w = "if connect_ret a \<noteq> 0 then (False, emit Mqtt_connect g)
            else connack_wait (slices a) 0 5000 (emit Mqtt_connect g)"
  obtain ok g2 where w: "?w = (ok, g2)"
    by (cases ?w)
  have "attributes_log (snd ?w) = attributes_log g"
    by (simp add: attributes_log_connack_wait attributes_log_emit)
  with w have g2: "attributes_log g2 = attributes_log g"
    by simp
  show ?thesis
    unfolding tb_try_def w
    by (cases ok) (simp_all add: g2 attributes_log_emit attributes_log_mqtt_disconnect)
qed

lemma attributes_log_tb_retry_loop:
  "attributes_log (snd (tb_retry_loop env retry g)) = attributes_log g"
proof (induction env retry g rule: tb_retry_loop.induct)
  case (1 env retry g)
  show ?case
  proof (cases "retry < 5")
    case False
    then show ?thesis by (simp add: tb_retry_loop.simps [of env retry g])
  next
    case True
    obtain ok g' where t: "tb_try (env retry) g = (ok, g')"
      by (cases "tb_try (env retry) g")
    with attributes_log_tb_try [of "env retry" g] have g': "attributes_log g' = attributes_log g"
      by simp
    show ?thesis
    proof (cases ok)
      case True
      with \<open>retry < 5\<close> t g' show ?thesis
        by (simp add: tb_retry_loop.simps [of env retry g])
    next
      case False
      with "1.IH" [OF \<open>retry < 5\<close> t [symmetric]] \<open>retry < 5\<close> t g' show ?thesis
        by (simp add: tb_retry_loop.simps [of env retry g])
    qed
  qed
qed

lemma attributes_log_thingsboard_connect:
  "attributes_log (snd (thingsboard_connect env g)) = attributes_log g"
  by (simp add: thingsboard_connect_def attributes_log_tb_retry_loop)

lemma attributes_log_reconnect: "attributes_log (reconnect env g) = attributes_log g"
proof -
  obtain ret g1 where w: "wifi_connect (re_wifi env) g = (ret, g1)"
    by (cases "wifi_connect (re_wifi env) g")
  with attributes_log_wifi_connect [of "re_wifi env" g] have "attributes_log g1 = attributes_log g"
    by simp
  then show ?thesis
    unfolding reconnect_def w
    by (simp add: attributes_log_thingsboard_connect attributes_log_emit)
qed

lemma attributes_log_main_wifi_loop:
  "attributes_log (snd (main_wifi_loop envs n g)) = attributes_log g"
proof (induction envs n g rule: main_wifi_loop.induct)
  case (1 envs n g)
  obtain ret g1 where w: "wifi_connect (envs n) g = (ret, g1)"
    by (cases "wifi_connect (envs n) g")
  with attributes_log_wifi_connect [of "envs n" g] have g1: "attributes_log g1 = attributes_log g"
    by simp
  show ?case
  proof (cases "ret \<noteq> Ret 0 \<and> n + 1 < 3")
    case True
    with "1.IH" [OF w [symmetric]] g1 w show ?thesis
      by (simp add: main_wifi_loop.simps [of envs n g] attributes_log_emit)
  next
    case False
    with g1 w show ?thesis
      by (auto simp add: main_wifi_loop.simps [of envs n g])
  qed
qed

lemma attributes_log_main_init:
  assumes "main_init env = Running g"
  shows "attributes_log g = (False, [])"
proof -
  let ?g = "emit (Sleep 2000) initial_globals"
  have i: "attributes_log ?g = (False, [])"
    by (simp add: attributes_log_def emit_def initial_globals_def)
  obtain ret g1 where w: "main_wifi_loop (boot_wifi env) 0 ?g = (ret, g1)"
    by (cases "main_wifi_loop (boot_wifi env) 0 ?g")
  with attributes_log_main_wifi_loop [of "boot_wifi env" 0 ?g] i
  have g1: "attributes_log g1 = (False, [])"
    by simp
  from assms g1 show ?thesis
    unfolding main_init_def Let_def w
    by (auto simp add: attributes_log_emit attributes_log_thingsboard_connect split: if_splits)
qed

lemma attributes_log_send_telemetry:
  "attributes_log (snd (send_telemetry rc g)) = attributes_log g"
  by (simp add: send_telemetry_def attributes_log_emit TELEMETRY_TOPIC_def ATTRIBUTES_TOPIC_def)

lemma attributes_log_mqtt_maintenance:
  "attributes_log (mqtt_maintenance evs g) = attributes_log g"
  by (simp add: mqtt_maintenance_def attributes_log_emit attributes_log_mqtt_input)

lemma main_cycles_snoc:
  "main_cycles (envs @ [env]) g =
     (case main_cycles envs g of None \<Rightarrow> None | Some g' \<Rightarrow> main_cycle env g')"
  by (induction envs arbitrary: g) (simp_all split: option.splits)

lemma main_cycle_total: "\<exists>g'. main_cycle env g = Some g'"
proof -
  let ?a = "foldl (\<lambda>g e. net_deliver e g) g (net_events env)"
  let ?b = "?a\<lparr>loop_count := loop_count ?a + 1\<rparr>"
  let ?c = "if loop_count ?b mod 10 = 0 \<and> \<not> mqtt_connected ?b then reconnect env ?b else ?b"
  from read_meter_data_total [of "meter_env env" "meter_data ?c"]
  obtain ret lg md where r: "read_meter_data (meter_env env) (meter_data ?c) = Some (ret, lg, md)"
    by (elim exE)
  show ?thesis
    unfolding main_cycle_def Let_def r by simp
qed

lemma main_cycles_total: "\<exists>g'. main_cycles envs g = Some g'"
proof (induction envs arbitrary: g)
  case Nil
  show ?case by simp
next
  case (Cons env envs)
  from main_cycle_total [of env g] obtain g1 where g1: "main_cycle env g = Some g1"
    by (elim exE)
  from Cons [of g1] show ?case
    by (simp add: g1)
qed

lemma attributes_log_connectivity_check:
  "attributes_log (connectivity_check env g) = attributes_log g"
  by (simp add: connectivity_check_def Let_def attributes_log_reconnect attributes_log_fields
      attributes_log_net_deliver_all)

lemma main_cycle_connectivity_check:
  "main_cycle env g0 =
     (case read_meter_data (meter_env env) (meter_data (connectivity_check env g0)) of
        None \<Rightarrow> None
      | Some (ret, lg, md) \<Rightarrow>
          (let g = (connectivity_check env g0)\<lparr>meter_data := md\<rparr>;
               g = (if ret = 0 \<and> valid (meter_data g) then publish_cycle env g else g);
               g = (if mqtt_connected g then mqtt_maintenance (maintenance_events env) g else g)
           in Some (emit (Sleep (MODBUS_READ_INTERVAL_SEC * 1000)) g)))"
  by (simp only: main_cycle_def connectivity_check_def Let_def)

lemma publish_cycle_attributes:
  "attributes_log (publish_cycle env g) =
     (if \<not> attrs_sent g \<and> mqtt_connected g
      then (True, filter is_attributes_publish (trace g)
                    @ [Mqtt_publish ATTRIBUTES_TOPIC (attributes_payload (meter_data g))])
      else attributes_log g)"
proof -
  let ?g1 = "emit (Log_status (status_summary (status (meter_data g)))) g"
  let ?g2 = "if \<not> attrs_sent ?g1 \<and> mqtt_connected ?g1
             then (snd (send_attributes (attributes_rc env) ?g1))\<lparr>attrs_sent := True\<rparr>
             else ?g1"
  have p: "attributes_log (publish_cycle env g) = attributes_log ?g2"
    unfolding publish_cycle_def Let_def
    by (simp add: attributes_log_send_telemetry)
  have "attributes_log ?g2 =
     (if \<not> attrs_sent g \<and> mqtt_connected g
      then (True, filter is_attributes_publish (trace g)
                    @ [Mqtt_publish ATTRIBUTES_TOPIC (attributes_payload (meter_data g))])
      else attributes_log g)"
    by (simp add: send_attributes_def attributes_log_def emit_def)
  with p show ?thesis
    by (simp only:)
qed

lemma main_cycle_attributes:
  assumes "main_cycle env g = Some g'"
    and "read_meter_data (meter_env env) (meter_data (connectivity_check env g)) = Some (ret, lg, md)"
  shows "attributes_log g' =
     (if ret = 0 \<and> valid md \<and> \<not> attrs_sent g \<and> mqtt_connected (connectivity_check env g)
      then (True, filter is_attributes_publish (trace g)
                    @ [Mqtt_publish ATTRIBUTES_TOPIC (attributes_payload md)])
      else attributes_log g)"
proof -
  let ?c = "connectivity_check env g"
  let ?d = "?c\<lparr>meter_data := md\<rparr>"
  let ?e = "if ret = 0 \<and> valid (meter_data ?d) then publish_cycle env ?d else ?d"
  let ?f = "if mqtt_connected ?e then mqtt_maintenance (maintenance_events env) ?e else ?e"
  have c: "attrs_sent ?c = attrs_sent g"
    "filter is_attributes_publish (trace ?c) = filter is_attributes_publish (trace g)"
    using attributes_log_connectivity_check [of env g] by (simp_all add: attributes_log_def)
  have g': "g' = emit (Sleep (MODBUS_READ_INTERVAL_SEC * 1000)) ?f"
    using assms(1) unfolding main_cycle_connectivity_check assms(2) Let_def by simp
  have f: "attributes_log g' = attributes_log ?e"
    unfolding g' by (simp add: attributes_log_emit attributes_log_mqtt_maintenance)
  have d: "attributes_log ?d = attributes_log g"
    using attributes_log_connectivity_check [of env g] by (simp add: attributes_log_fields)
  show ?thesis
  proof (cases "ret = 0 \<and> valid md")
    case True
    then have "attributes_log ?e = attributes_log (publish_cycle env ?d)"
      by simp
    then show ?thesis
      unfolding f publish_cycle_attributes using True c d by simp
  next
    case False
    then have "attributes_log ?e = attributes_log ?d"
      by auto
    with False d show ?thesis
      unfolding f by auto
  qed
qed

lemma attributes_log_run:
  assumes "attributes_log g0 = (False, [])" and "main_cycles envs g0 = Some g"
  shows "attributes_log g = (False, []) \<or>
     (\<exists>pre env post gk lg md. envs = pre @ env # post \<and> main_cycles pre g0 = Some gk
        \<and> \<not> attrs_sent gk
        \<and> mqtt_connected (connectivity_check env gk)
        \<and> read_meter_data (meter_env env) (meter_data (connectivity_check env gk)) = Some (0, lg, md)
        \<and> valid md
        \<and> attributes_log g = (True, [Mqtt_publish ATTRIBUTES_TOPIC (attributes_payload md)]))"
  using assms(2)
proof (induction envs arbitrary: g rule: rev_induct)
  case Nil
  with assms(1) show ?case by simp
next
  case (snoc env envs)
  from snoc.prems obtain gk where gk: "main_cycles envs g0 = Some gk" and st: "main_cycle env gk = Some g"
    unfolding main_cycles_snoc by (auto split: option.splits)
  from read_meter_data_total [of "meter_env env" "meter_data (connectivity_check env gk)"]
  obtain ret lg md where
    r: "read_meter_data (meter_env env) (meter_data (connectivity_check env gk)) = Some (ret, lg, md)"
    by (elim exE)
  note a = main_cycle_attributes [OF st r]
  show ?case
  proof (cases "ret = 0 \<and> valid md \<and> \<not> attrs_sent gk \<and> mqtt_connected (connectivity_check env gk)")
    case True
    then have n: "\<not> attrs_sent gk" by simp
    from snoc.IH [OF gk] n have "attributes_log gk = (False, [])"
      by (auto simp add: attributes_log_def)
    then have e: "filter is_attributes_publish (trace gk) = []"
      by (simp add: attributes_log_def)
    from a True e have l: "attributes_log g = (True, [Mqtt_publish ATTRIBUTES_TOPIC (attributes_payload md)])"
      by simp
    from True r have r0: "read_meter_data (meter_env env) (meter_data (connectivity_check env gk)) = Some (0, lg, md)"
      by simp
    have "envs @ [env] = envs @ env # [] \<and> main_cycles envs g0 = Some gk
        \<and> \<not> attrs_sent gk
        \<and> mqtt_connected (connectivity_check env gk)
        \<and> read_meter_data (meter_env env) (meter_data (connectivity_check env gk)) = Some (0, lg, md)
        \<and> valid md
        \<and> attributes_log g = (True, [Mqtt_publish ATTRIBUTES_TOPIC (attributes_payload md)])"
      using gk True r0 l by simp
    then have "\<exists>pre e post gk lg md. envs @ [env] = pre @ e # post \<and> main_cycles pre g0 = Some gk
        \<and> \<not> attrs_sent gk
        \<and> mqtt_connected (connectivity_check e gk)
        \<and> read_meter_data (meter_env e) (meter_data (connectivity_check e gk)) = Some (0, lg, md)
        \<and> valid md
        \<and> attributes_log g = (True, [Mqtt_publish ATTRIBUTES_TOPIC (attributes_payload md)])"
      by (intro exI)
    then show ?thesis ..
  next
    case False
    with a have same: "attributes_log g = attributes_log gk"
      by (simp only: if_False)
    from snoc.IH [OF gk] show ?thesis
    proof
      assume "attributes_log gk = (False, [])"
      with same show ?thesis by simp
    next
      assume "\<exists>pre e post gj lg md. envs = pre @ e # post \<and> main_cycles pre g0 = Some gj
        \<and> \<not> attrs_sent gj
        \<and> mqtt_connected (connectivity_check e gj)
        \<and> read_meter_data (meter_env e) (meter_data (connectivity_check e gj)) = Some (0, lg, md)
        \<and> valid md
        \<and> attributes_log gk = (True, [Mqtt_publish ATTRIBUTES_TOPIC (attributes_payload md)])"
      then obtain pre e post gj lg' md' where w: "envs = pre @ e # post" "main_cycles pre g0 = Some gj"
        "\<not> attrs_sent gj"
        "mqtt_connected (connectivity_check e gj)"
        "read_meter_data (meter_env e) (meter_data (connectivity_check e gj)) = Some (0, lg', md')"
        "valid md'"
        "attributes_log gk = (True, [Mqtt_publish ATTRIBUTES_TOPIC (attributes_payload md')])"
        by (elim exE conjE)
      from w(1) have "envs @ [env] = pre @ e # (post @ [env])"
        by simp
      with w(2-6) w(7) [folded same]
      have "envs @ [env] = pre @ e # (post @ [env]) \<and> main_cycles pre g0 = Some gj
        \<and> \<not> attrs_sent gj
        \<and> mqtt_connected (connectivity_check e gj)
        \<and> read_meter_data (meter_env e) (meter_data (connectivity_check e gj)) = Some (0, lg', md')
        \<and> valid md'
        \<and> attributes_log g = (True, [Mqtt_publish ATTRIBUTES_TOPIC (attributes_payload md')])"
        by (intro conjI)
      then have "\<exists>pre e post gk lg md. envs @ [env] = pre @ e # post \<and> main_cycles pre g0 = Some gk
        \<and> \<not> attrs_sent gk
        \<and> mqtt_connected (connectivity_check e gk)
        \<and> read_meter_data (meter_env e) (meter_data (connectivity_check e gk)) = Some (0, lg, md)
        \<and> valid md
        \<and> attributes_log g = (True, [Mqtt_publish ATTRIBUTES_TOPIC (attributes_payload md)])"
        by (intro exI)
      then show ?thesis ..
    qed
  qed
qed

text \<open>
  C8.  After any boot that reaches the main loop, any number of passes of the loop end with
  a state, whatever the environment does, and the trace then holds at most one publish on
  the attributes topic; \<^verbatim>\<open>attrs_sent\<close> is set exactly when it holds one.  Every such
  publish was made in a pass that found \<^verbatim>\<open>attrs_sent\<close> clear, in which \<^verbatim>\<open>mqtt_connected\<close>,
  the flag of the established session, was set when the pass read the meter, and in which
  \<^verbatim>\<open>read_meter_data\<close> returned 0 with a valid reading; it carries the fields
  firmwareVersion, deviceModel, serialNumber, modbusId and baudRate, in this order, of that
  reading.  No session therefore gets more than one.  A single pass adds that publish
  exactly under these conditions and nothing on the attributes topic otherwise.
  \<^verbatim>\<open>send_attributes\<close> itself returns -ENOTCONN and leaves the state as it was when
  \<^verbatim>\<open>mqtt_connected\<close> is false, and otherwise publishes the serial number, the bus address
  and the baud rate of the current \<^verbatim>\<open>meter_data\<close> and returns what the publish
  returned.  The baud rate is "9600", "2400", "4800", "1200" for the codes 0, 1, 2, 3 and
  "unknown" for every other code.
\<close>

theorem attributes_sent_at_most_once:
  assumes "main_init benv = Running g0"
  shows "(\<exists>g. main_cycles envs g0 = Some g
       \<and> length (filter is_attributes_publish (trace g)) \<le> 1
       \<and> attrs_sent g = (filter is_attributes_publish (trace g) \<noteq> [])
       \<and> (\<forall>a \<in> set (trace g). is_attributes_publish a \<longrightarrow>
            (\<exists>pre env post gk lg md.
               envs = pre @ env # post \<and> main_cycles pre g0 = Some gk
               \<and> \<not> attrs_sent gk
               \<and> mqtt_connected (connectivity_check env gk)
               \<and> read_meter_data (meter_env env) (meter_data (connectivity_check env gk))
                   = Some (0, lg, md)
               \<and> valid md
               \<and> a = Mqtt_publish ATTRIBUTES_TOPIC
                      [(''firmwareVersion'', JString ''2.0.0''),
                       (''deviceModel'', JString ''BOVE-Modbus-Meter''),
                       (''serialNumber'', JHex8 (serial_number md)),
                       (''modbusId'', JUnsigned (unat (modbus_id md))),
                       (''baudRate'', JString (baud_str (baud_code md)))])))
     \<and> (main_cycle cenv s = Some s'
          \<and> read_meter_data (meter_env cenv) (meter_data (connectivity_check cenv s))
              = Some (ret, rlog, m)
        \<longrightarrow> filter is_attributes_publish (trace s') =
              filter is_attributes_publish (trace s)
              @ (if ret = 0 \<and> valid m \<and> \<not> attrs_sent s
                    \<and> mqtt_connected (connectivity_check cenv s)
                 then [Mqtt_publish ATTRIBUTES_TOPIC
                        [(''firmwareVersion'', JString ''2.0.0''),
                         (''deviceModel'', JString ''BOVE-Modbus-Meter''),
                         (''serialNumber'', JHex8 (serial_number m)),
                         (''modbusId'', JUnsigned (unat (modbus_id m))),
                         (''baudRate'', JString (baud_str (baud_code m)))]]
                 else [])
            \<and> attrs_sent s' =
              (attrs_sent s \<or> ret = 0 \<and> valid m \<and> mqtt_connected (connectivity_check cenv s)))
     \<and> (\<not> mqtt_connected t \<longrightarrow> send_attributes rc t = (Neg ENOTCONN, t))
     \<and> (mqtt_connected t \<longrightarrow>
          send_attributes rc t =
            (Ret rc,
             t\<lparr>trace := trace t @
                [Mqtt_publish ATTRIBUTES_TOPIC
                   [(''firmwareVersion'', JString ''2.0.0''),
                    (''deviceModel'', JString ''BOVE-Modbus-Meter''),
                    (''serialNumber'', JHex8 (serial_number (meter_data t))),
                    (''modbusId'', JUnsigned (unat (modbus_id (meter_data t)))),
                    (''baudRate'', JString (baud_str (baud_code (meter_data t))))]]\<rparr>))
     \<and> baud_str 0 = ''9600'' \<and> baud_str 1 = ''2400'' \<and> baud_str 2 = ''4800''
     \<and> baud_str 3 = ''1200''
     \<and> (c \<noteq> 0 \<and> c \<noteq> 1 \<and> c \<noteq> 2 \<and> c \<noteq> 3 \<longrightarrow> baud_str c = ''unknown'')"
proof -
  from main_cycles_total [of envs g0] obtain g where g: "main_cycles envs g0 = Some g"
    by (elim exE)
  let ?made = "\<lambda>a. \<exists>pre env post gk lg md.
               envs = pre @ env # post \<and> main_cycles pre g0 = Some gk
               \<and> \<not> attrs_sent gk
               \<and> mqtt_connected (connectivity_check env gk)
               \<and> read_meter_data (meter_env env) (meter_data (connectivity_check env gk))
                   = Some (0, lg, md)
               \<and> valid md
               \<and> a = Mqtt_publish ATTRIBUTES_TOPIC (attributes_payload md)"
  have run: "length (filter is_attributes_publish (trace g)) \<le> 1
       \<and> attrs_sent g = (filter is_attributes_publish (trace g) \<noteq> [])
       \<and> (\<forall>a \<in> set (trace g). is_attributes_publish a \<longrightarrow> ?made a)"
    using attributes_log_run [OF attributes_log_main_init [OF assms] g]
  proof
    assume "attributes_log g = (False, [])"
    then have e: "\<not> attrs_sent g" "filter is_attributes_publish (trace g) = []"
      by (simp_all add: attributes_log_def)
    have "\<forall>a \<in> set (trace g). is_attributes_publish a \<longrightarrow> ?made a"
    proof (intro ballI impI)
      fix a assume "a \<in> set (trace g)" "is_attributes_publish a"
      then have "a \<in> set (filter is_attributes_publish (trace g))"
        by simp
      with e(2) show "?made a"
        by simp
    qed
    with e show ?thesis
      by simp
  next
    assume "\<exists>pre env post gk lg md. envs = pre @ env # post \<and> main_cycles pre g0 = Some gk
        \<and> \<not> attrs_sent gk
        \<and> mqtt_connected (connectivity_check env gk)
        \<and> read_meter_data (meter_env env) (meter_data (connectivity_check env gk)) = Some (0, lg, md)
        \<and> valid md
        \<and> attributes_log g = (True, [Mqtt_publish ATTRIBUTES_TOPIC (attributes_payload md)])"
    then obtain pre env post gk lg md where w: "envs = pre @ env # post" "main_cycles pre g0 = Some gk"
        "\<not> attrs_sent gk"
        "mqtt_connected (connectivity_check env gk)"
        "read_meter_data (meter_env env) (meter_data (connectivity_check env gk)) = Some (0, lg, md)"
        "valid md"
      and l: "attributes_log g = (True, [Mqtt_publish ATTRIBUTES_TOPIC (attributes_payload md)])"
      by (elim exE conjE)
    from l have e: "attrs_sent g"
      "filter is_attributes_publish (trace g) = [Mqtt_publish ATTRIBUTES_TOPIC (attributes_payload md)]"
      by (simp_all add: attributes_log_def)
    have m: "?made (Mqtt_publish ATTRIBUTES_TOPIC (attributes_payload md))"
    proof (intro exI conjI)
      show "envs = pre @ env # post" by (rule w(1))
      show "main_cycles pre g0 = Some gk" by (rule w(2))
      show "\<not> attrs_sent gk" by (rule w(3))
      show "mqtt_connected (connectivity_check env gk)" by (rule w(4))
      show "read_meter_data (meter_env env) (meter_data (connectivity_check env gk)) = Some (0, lg, md)"
        by (rule w(5))
      show "valid md" by (rule w(6))
      show "Mqtt_publish ATTRIBUTES_TOPIC (attributes_payload md)
          = Mqtt_publish ATTRIBUTES_TOPIC (attributes_payload md)" ..
    qed
    have "\<forall>a \<in> set (trace g). is_attributes_publish a \<longrightarrow> ?made a"
    proof (intro ballI impI)
      fix a assume "a \<in> set (trace g)" "is_attributes_publish a"
      then have "a \<in> set (filter is_attributes_publish (trace g))"
        by simp
      then have "a = Mqtt_publish ATTRIBUTES_TOPIC (attributes_payload md)"
        unfolding e(2) by simp
      with m show "?made a"
        by (simp only:)
    qed
    moreover have "length (filter is_attributes_publish (trace g)) \<le> 1"
      unfolding e(2) by simp
    moreover have "attrs_sent g = (filter is_attributes_publish (trace g) \<noteq> [])"
      unfolding e(2) using e(1) by simp
    ultimately show ?thesis
      by (intro conjI)
  qed
  have first: "\<exists>g. main_cycles envs g0 = Some g
       \<and> length (filter is_attributes_publish (trace g)) \<le> 1
       \<and> attrs_sent g = (filter is_attributes_publish (trace g) \<noteq> [])
       \<and> (\<forall>a \<in> set (trace g). is_attributes_publish a \<longrightarrow> ?made a)"
    using conjI [OF g run] by (rule exI)
  have pass: "main_cycle cenv s = Some s'
          \<and> read_meter_data (meter_env cenv) (meter_data (connectivity_check cenv s))
              = Some (ret, rlog, m)
        \<longrightarrow> filter is_attributes_publish (trace s') =
              filter is_attributes_publish (trace s)
              @ (if ret = 0 \<and> valid m \<and> \<not> attrs_sent s
                    \<and> mqtt_connected (connectivity_check cenv s)
                 then [Mqtt_publish ATTRIBUTES_TOPIC (attributes_payload m)]
                 else [])
            \<and> attrs_sent s' =
              (attrs_sent s \<or> ret = 0 \<and> valid m \<and> mqtt_connected (connectivity_check cenv s))"
  proof
    assume a: "main_cycle cenv s = Some s'
          \<and> read_meter_data (meter_env cenv) (meter_data (connectivity_check cenv s))
              = Some (ret, rlog, m)"
    from main_cycle_attributes [OF a [THEN conjunct1] a [THEN conjunct2]]
    show "filter is_attributes_publish (trace s') =
              filter is_attributes_publish (trace s)
              @ (if ret = 0 \<and> valid m \<and> \<not> attrs_sent s
                    \<and> mqtt_connected (connectivity_check cenv s)
                 then [Mqtt_publish ATTRIBUTES_TOPIC (attributes_payload m)]
                 else [])
            \<and> attrs_sent s' =
              (attrs_sent s \<or> ret = 0 \<and> valid m \<and> mqtt_connected (connectivity_check cenv s))"
      by (auto simp add: attributes_log_def split: if_splits)
  qed
  have send: "\<not> mqtt_connected t \<longrightarrow> send_attributes rc t = (Neg ENOTCONN, t)"
    "mqtt_connected t \<longrightarrow>
          send_attributes rc t =
            (Ret rc, t\<lparr>trace := trace t @
                [Mqtt_publish ATTRIBUTES_TOPIC (attributes_payload (meter_data t))]\<rparr>)"
    by (simp_all add: send_attributes_def emit_def)
  have b: "baud_str 0 = ''9600''" "baud_str 1 = ''2400''" "baud_str 2 = ''4800''"
    "baud_str 3 = ''1200''"
    "c \<noteq> 0 \<and> c \<noteq> 1 \<and> c \<noteq> 2 \<and> c \<noteq> 3 \<longrightarrow> baud_str c = ''unknown''"
    by (simp_all add: baud_str_def)
  from first [unfolded attributes_payload_def] pass [unfolded attributes_payload_def]
    send [unfolded attributes_payload_def] b
  show ?thesis
    by (intro conjI)
qed

section \<open>Bring-up against collaborators that never answer\<close>

lemma connack_wait_timeout:
  assumes "timeout > 0" and "\<not> mqtt_connected g" and "poll_ret (sl i) = 0"
  shows "connack_wait sl i timeout g =
     connack_wait sl (i + 1) (timeout - 500) (emit (Sleep 500) (emit (Poll 500 0) g))"
  using assms by (simp add: connack_wait.simps [of sl i timeout g] Let_def mqtt_connected_emit)

lemma connack_wait_done: "connack_wait sl i 0 g = (False, g)"
  by (simp add: connack_wait.simps [of sl i 0 g])

lemma emit_trace: "emit a g = g\<lparr>trace := trace g @ [a]\<rparr>"
  by (simp add: emit_def)

lemma connack_wait_silent:
  assumes "\<not> mqtt_connected g" and "\<forall>i. poll_ret (sl i) = 0"
  shows "connack_wait sl i 5000 g =
     (False, g\<lparr>trace := trace g @ concat (replicate 10 [Poll 500 0, Sleep 500])\<rparr>)"
proof -
  have step: "\<And>i t g. t > 0 \<Longrightarrow> \<not> mqtt_connected g \<Longrightarrow>
      connack_wait sl i t g = connack_wait sl (i + 1) (t - 500) (emit (Sleep 500) (emit (Poll 500 0) g))"
    using assms(2) by (simp add: connack_wait_timeout)
  have r: "replicate 10 [Poll 500 0, Sleep 500] =
      [[Poll 500 0, Sleep 500], [Poll 500 0, Sleep 500], [Poll 500 0, Sleep 500],
       [Poll 500 0, Sleep 500], [Poll 500 0, Sleep 500], [Poll 500 0, Sleep 500],
       [Poll 500 0, Sleep 500], [Poll 500 0, Sleep 500], [Poll 500 0, Sleep 500],
       [Poll 500 0, Sleep 500]]"
    by (simp add: numeral_eq_Suc)
  show ?thesis
    unfolding r using assms(1)
    by (simp add: step mqtt_connected_emit connack_wait_done emit_trace)
qed

lemma mqtt_connected_False: "\<not> mqtt_connected g \<Longrightarrow> g\<lparr>mqtt_connected := False\<rparr> = g"
  by (cases g) simp

lemma tb_try_silent:
  assumes "\<not> mqtt_connected g"
  shows "tb_try (silent_broker k) g =
     (False, g\<lparr>trace := trace g @ Mqtt_connect # concat (replicate 10 [Poll 500 0, Sleep 500])
                              @ [Mqtt_disconnect, Sleep 2000]\<rparr>)"
proof -
  have c: "\<not> mqtt_connected (emit Mqtt_connect g)"
    using assms by (simp add: mqtt_connected_emit)
  have w: "connack_wait (slices (silent_broker k)) 0 5000 (emit Mqtt_connect g) =
     (False, (emit Mqtt_connect g)\<lparr>trace := trace (emit Mqtt_connect g)
                @ concat (replicate 10 [Poll 500 0, Sleep 500])\<rparr>)"
    by (rule connack_wait_silent [OF c]) (simp add: silent_broker_def)
  have "tb_try (silent_broker k) g =
     (False, (g\<lparr>trace := trace g @ Mqtt_connect # concat (replicate 10 [Poll 500 0, Sleep 500])
                              @ [Mqtt_disconnect, Sleep 2000]\<rparr>)\<lparr>mqtt_connected := False\<rparr>)"
    unfolding tb_try_def w
    by (simp add: silent_broker_def mqtt_disconnect_def emit_trace)
  also have "(g\<lparr>trace := trace g @ Mqtt_connect # concat (replicate 10 [Poll 500 0, Sleep 500])
                              @ [Mqtt_disconnect, Sleep 2000]\<rparr>)\<lparr>mqtt_connected := False\<rparr>
      = g\<lparr>trace := trace g @ Mqtt_connect # concat (replicate 10 [Poll 500 0, Sleep 500])
                              @ [Mqtt_disconnect, Sleep 2000]\<rparr>"
    by (rule mqtt_connected_False) (simp add: assms)
  finally show ?thesis .
qed

lemma tb_retry_loop_failed:
  "retry < 5 \<Longrightarrow> tb_try (env retry) g = (False, g') \<Longrightarrow>
     tb_retry_loop env retry g = tb_retry_loop env (retry + 1) g'"
  by (simp add: tb_retry_loop.simps [of env retry g])

lemma tb_retry_loop_exhausted: "tb_retry_loop env 5 g = (Neg ECONNREFUSED, g)"
  by (simp add: tb_retry_loop.simps [of env 5 g])

lemma tb_retry_loop_silent:
  assumes "n \<le> 5" and "\<not> mqtt_connected g"
  shows "tb_retry_loop silent_broker (5 - n) g =
     (Neg ECONNREFUSED,
      g\<lparr>trace := trace g @ concat (replicate n
             (Mqtt_connect # concat (replicate 10 [Poll 500 0, Sleep 500])
                @ [Mqtt_disconnect, Sleep 2000]))\<rparr>)"
  using assms
proof (induction n arbitrary: g)
  case 0
  then show ?case
    by (simp add: tb_retry_loop_exhausted)
next
  case (Suc n)
  let ?a = "Mqtt_connect # concat (replicate 10 [Poll 500 0, Sleep 500]) @ [Mqtt_disconnect, Sleep 2000]"
  let ?g' = "g\<lparr>trace := trace g @ ?a\<rparr>"
  from Suc.prems have lt: "5 - Suc n < 5" and nx: "5 - Suc n + 1 = 5 - n" and n: "n \<le> 5"
    by simp_all
  have "tb_retry_loop silent_broker (5 - Suc n) g = tb_retry_loop silent_broker (5 - Suc n + 1) ?g'"
    by (rule tb_retry_loop_failed [OF lt]) (simp add: tb_try_silent Suc.prems(2))
  also have "\<dots> = tb_retry_loop silent_broker (5 - n) ?g'"
    by (simp only: nx)
  also have "\<dots> = (Neg ECONNREFUSED, ?g'\<lparr>trace := trace ?g' @ concat (replicate n ?a)\<rparr>)"
    by (rule Suc.IH [OF n]) (simp add: Suc.prems(2))
  finally show ?case
    by simp
qed

lemma thingsboard_connect_silent:
  assumes "\<not> mqtt_connected g"
  shows "thingsboard_connect silent_broker g =
     (Neg ECONNREFUSED,
      g\<lparr>trace := trace g @ concat (replicate 5
             (Mqtt_connect # concat (replicate 10 [Poll 500 0, Sleep 500])
                @ [Mqtt_disconnect, Sleep 2000]))\<rparr>)"
  using tb_retry_loop_silent [of 5 g] assms by (simp add: thingsboard_connect_def)

section \<open>Link bring-up against an access point that never answers\<close>

lemma wifi_try_silent:
  "wifi_try (attempts silent_access_point k) g =
     (False, g\<lparr>wifi_connected := 0, ipv4_obtained := 0,
                trace := trace g @ [Wifi_connect_request, Sleep 5000]\<rparr>)"
  by (simp add: wifi_try_def silent_access_point_def k_sem_take_wifi_connected_def emit_trace)

lemma wifi_retry_loop_failed:
  "retry < 10 \<Longrightarrow> wifi_try (env retry) g = (False, g') \<Longrightarrow>
     wifi_retry_loop env retry g = wifi_retry_loop env (retry + 1) g'"
  by (simp add: wifi_retry_loop.simps [of env retry g])

lemma wifi_retry_loop_exhausted: "wifi_retry_loop env 10 g = (Neg ETIMEDOUT, g)"
  by (simp add: wifi_retry_loop.simps [of env 10 g])

lemma wifi_retry_loop_silent:
  assumes "0 < n" and "n \<le> 10"
  shows "wifi_retry_loop (attempts silent_access_point) (10 - n) g =
     (Neg ETIMEDOUT,
      g\<lparr>wifi_connected := 0, ipv4_obtained := 0,
        trace := trace g @ concat (replicate n [Wifi_connect_request, Sleep 5000])\<rparr>)"
  using assms
proof (induction n arbitrary: g)
  case 0
  then show ?case by simp
next
  case (Suc n)
  let ?g' = "g\<lparr>wifi_connected := 0, ipv4_obtained := 0,
               trace := trace g @ [Wifi_connect_request, Sleep 5000]\<rparr>"
  from Suc.prems have lt: "10 - Suc n < 10" and nx: "10 - Suc n + 1 = 10 - n" and n: "n \<le> 10"
    by simp_all
  have "wifi_retry_loop (attempts silent_access_point) (10 - Suc n) g
      = wifi_retry_loop (attempts silent_access_point) (10 - Suc n + 1) ?g'"
    by (rule wifi_retry_loop_failed [OF lt]) (rule wifi_try_silent)
  also have "\<dots> = wifi_retry_loop (attempts silent_access_point) (10 - n) ?g'"
    by (simp only: nx)
  finally have step: "wifi_retry_loop (attempts silent_access_point) (10 - Suc n) g
      = wifi_retry_loop (attempts silent_access_point) (10 - n) ?g'" .
  show ?case
  proof (cases n)
    case 0
    with step show ?thesis
      by (simp add: wifi_retry_loop_exhausted)
  next
    case (Suc m)
    then have "0 < n" by simp
    from Suc.IH [OF this n, of ?g'] step show ?thesis
      by simp
  qed
qed

lemma wifi_connect_silent:
  "wifi_connect silent_access_point g =
     (Neg ETIMEDOUT,
      g\<lparr>wifi_connected := 0, ipv4_obtained := 0,
        trace := trace g @ concat (replicate 10 [Wifi_connect_request, Sleep 5000])\<rparr>)"
  using wifi_retry_loop_silent [of 10 g]
  by (simp add: wifi_connect_def silent_access_point_def)

section \<open>The sample reply through the whole program\<close>

lemma validate_sample:
  "validate_response (buffer_of sample_reply) 81 md =
     Some (0, Meter_data_read_successfully,
           md\<lparr>flow_rate := 0x000104D2, forward_total := 0x0012D687, reverse_total := 0,
              pressure := 300, temperature := 2500, status := 0x0024,
              serial_number := 0x12345678, modbus_id := 1, baud_code := 1, valid := True\<rparr>)"
proof -
  have n: "(81 :: nat) \<le> MODBUS_RX_BUFFER"
    by (simp add: MODBUS_RX_BUFFER_def)
  have c: "modbus_crc16 (map (buffer_of sample_reply) [0..<81 - 2]) = 0xE25B"
    by (simp add: map_buffer_of sample_length sample_crc)
  show ?thesis
    unfolding validate_response_eq [OF n] c
    by (simp add: sample_bytes sample_payload MODBUS_SLAVE_ID_def parse_meter_data_in)
qed

lemma read_sample:
  "read_meter_data (meter_env sample_cycle) md =
     Some (0, Meter_data_read_successfully,
           md\<lparr>flow_rate := 0x000104D2, forward_total := 0x0012D687, reverse_total := 0,
              pressure := 300, temperature := 2500, status := 0x0024,
              serial_number := 0x12345678, modbus_id := 1, baud_code := 1, valid := True\<rparr>)"
  by (simp add: sample_cycle_def read_meter_data_sample validate_sample)

lemma main_wifi_loop_silent:
  "main_wifi_loop (\<lambda>k. silent_access_point) 0 g =
     (Neg ETIMEDOUT,
      g\<lparr>wifi_connected := 0, ipv4_obtained := 0,
        trace := trace g @ concat (replicate 10 [Wifi_connect_request, Sleep 5000])
                 @ Sleep 10000 # concat (replicate 10 [Wifi_connect_request, Sleep 5000])
                 @ Sleep 10000 # concat (replicate 10 [Wifi_connect_request, Sleep 5000])\<rparr>)"
  by (simp add: main_wifi_loop.simps wifi_connect_silent emit_trace)

lemma main_init_offline:
  "main_init offline_boot =
     Running (initial_globals
       \<lparr>trace := Sleep 2000 # concat (replicate 10 [Wifi_connect_request, Sleep 5000])
                 @ Sleep 10000 # concat (replicate 10 [Wifi_connect_request, Sleep 5000])
                 @ Sleep 10000 # concat (replicate 10 [Wifi_connect_request, Sleep 5000])\<rparr>)"
  by (simp add: main_init_def offline_boot_def main_wifi_loop_silent emit_trace initial_globals_def)

lemma main_cycle_offline:
  assumes "\<not> mqtt_connected g" and "loop_count g = 0"
  shows "main_cycle sample_cycle g =
     Some (g\<lparr>meter_data := (meter_data g)
                 \<lparr>flow_rate := 0x000104D2, forward_total := 0x0012D687, reverse_total := 0,
                  pressure := 300, temperature := 2500, status := 0x0024,
                  serial_number := 0x12345678, modbus_id := 1, baud_code := 1, valid := True\<rparr>,
              loop_count := 1,
              trace := trace g @ [Log_status ''(Empty!)'', Sleep 30000]\<rparr>)"
proof -
  have e: "net_events sample_cycle = []"
    by (simp add: sample_cycle_def)
  show ?thesis
    unfolding main_cycle_def Let_def e
    using assms
    by (simp add: read_sample publish_cycle_def emit_trace status_summary_def
        MODBUS_READ_INTERVAL_SEC_def)
qed

text \<open>
  C7.  Against an access point and a broker that never answer: \<^verbatim>\<open>wifi_connect\<close> makes ten
  requests, sleeps 5000 ms after each and returns -ETIMEDOUT; \<^verbatim>\<open>thingsboard_connect\<close>
  makes five attempts, each a connect, ten rounds of a 500 ms poll and a 500 ms sleep, a
  disconnect and a sleep of 2000 ms, and returns -ECONNREFUSED; the ten rounds of one
  attempt keep the caller for 10000 ms.  \<^verbatim>\<open>main\<close> calls \<^verbatim>\<open>wifi_connect\<close> three times,
  10 s apart, and goes on into its loop; the first pass reads the meter, logs the reading
  and publishes nothing.
\<close>

theorem bring_up_timeouts:
  "wifi_connect silent_access_point initial_globals =
     (Neg ETIMEDOUT,
      initial_globals\<lparr>trace := concat (replicate 10 [Wifi_connect_request, Sleep 5000])\<rparr>)
   \<and> thingsboard_connect silent_broker initial_globals =
     (Neg ECONNREFUSED,
      initial_globals\<lparr>trace := concat (replicate 5
         (Mqtt_connect # concat (replicate 10 [Poll 500 0, Sleep 500])
            @ [Mqtt_disconnect, Sleep 2000]))\<rparr>)
   \<and> elapsed_ms (concat (replicate 10 [Poll 500 0, Sleep 500])) = 10000
   \<and> (\<exists>g. main_init offline_boot = Running g
        \<and> trace g =
            Sleep 2000 # concat (replicate 10 [Wifi_connect_request, Sleep 5000])
              @ Sleep 10000 # concat (replicate 10 [Wifi_connect_request, Sleep 5000])
              @ Sleep 10000 # concat (replicate 10 [Wifi_connect_request, Sleep 5000])
        \<and> main_cycle sample_cycle g =
            Some (g\<lparr>meter_data := initial_meter_data
                       \<lparr>flow_rate := 0x000104D2, forward_total := 0x0012D687,
                        reverse_total := 0, pressure := 300, temperature := 2500,
                        status := 0x0024, serial_number := 0x12345678, modbus_id := 1,
                        baud_code := 1, valid := True\<rparr>,
                     loop_count := 1,
                     trace := trace g @ [Log_status ''(Empty!)'', Sleep 30000]\<rparr>))"
proof (intro conjI)
  show "wifi_connect silent_access_point initial_globals =
     (Neg ETIMEDOUT,
      initial_globals\<lparr>trace := concat (replicate 10 [Wifi_connect_request, Sleep 5000])\<rparr>)"
    unfolding wifi_connect_silent by (simp add: initial_globals_def)
  show "thingsboard_connect silent_broker initial_globals =
     (Neg ECONNREFUSED,
      initial_globals\<lparr>trace := concat (replicate 5
         (Mqtt_connect # concat (replicate 10 [Poll 500 0, Sleep 500])
            @ [Mqtt_disconnect, Sleep 2000]))\<rparr>)"
    by (simp add: thingsboard_connect_silent initial_globals_def)
  show "elapsed_ms (concat (replicate 10 [Poll 500 0, Sleep 500])) = 10000"
    by (simp add: elapsed_ms_def numeral_eq_Suc)
  let ?g = "initial_globals
       \<lparr>trace := Sleep 2000 # concat (replicate 10 [Wifi_connect_request, Sleep 5000])
                 @ Sleep 10000 # concat (replicate 10 [Wifi_connect_request, Sleep 5000])
                 @ Sleep 10000 # concat (replicate 10 [Wifi_connect_request, Sleep 5000])\<rparr>"
  have g: "\<not> mqtt_connected ?g" "loop_count ?g = 0" "meter_data ?g = initial_meter_data"
    by (simp_all add: initial_globals_def)
  show "\<exists>g. main_init offline_boot = Running g
        \<and> trace g =
            Sleep 2000 # concat (replicate 10 [Wifi_connect_request, Sleep 5000])
              @ Sleep 10000 # concat (replicate 10 [Wifi_connect_request, Sleep 5000])
              @ Sleep 10000 # concat (replicate 10 [Wifi_connect_request, Sleep 5000])
        \<and> main_cycle sample_cycle g =
            Some (g\<lparr>meter_data := initial_meter_data
                       \<lparr>flow_rate := 0x000104D2, forward_total := 0x0012D687,
                        reverse_total := 0, pressure := 300, temperature := 2500,
                        status := 0x0024, serial_number := 0x12345678, modbus_id := 1,
                        baud_code := 1, valid := True\<rparr>,
                     loop_count := 1,
                     trace := trace g @ [Log_status ''(Empty!)'', Sleep 30000]\<rparr>)"
  proof (intro exI [of _ ?g] conjI)
    show "main_init offline_boot = Running ?g"
      by (rule main_init_offline)
    show "trace ?g =
            Sleep 2000 # concat (replicate 10 [Wifi_connect_request, Sleep 5000])
              @ Sleep 10000 # concat (replicate 10 [Wifi_connect_request, Sleep 5000])
              @ Sleep 10000 # concat (replicate 10 [Wifi_connect_request, Sleep 5000])"
      by simp
    show "main_cycle sample_cycle ?g =
            Some (?g\<lparr>meter_data := initial_meter_data
                       \<lparr>flow_rate := 0x000104D2, forward_total := 0x0012D687,
                        reverse_total := 0, pressure := 300, temperature := 2500,
                        status := 0x0024, serial_number := 0x12345678, modbus_id := 1,
                        baud_code := 1, valid := True\<rparr>,
                     loop_count := 1,
                     trace := trace ?g @ [Log_status ''(Empty!)'', Sleep 30000]\<rparr>)"
      unfolding main_cycle_offline [OF g(1,2)] g(3) ..
  qed
qed

section \<open>Bring-up against collaborators that answer\<close>

lemma main_init_online:
  "main_init online_boot =
     Running (initial_globals
       \<lparr>mqtt_connected := True,
        trace := [Sleep 2000, Wifi_connect_request, Sleep 1000, Sleep 1000,
                  Mqtt_connect, Poll 500 1, Mqtt_input]\<rparr>)"
  by (simp add: main_init_def online_boot_def main_wifi_loop.simps wifi_connect_def
      wifi_retry_loop.simps wifi_try_def answering_access_point_def answering_broker_def
      k_sem_take_wifi_connected_def k_sem_take_ipv4_obtained_def net_deliver_def k_sem_give_def
      broker_init_def thingsboard_connect_def tb_retry_loop.simps tb_try_def
      connack_wait.simps mqtt_input_def emit_trace initial_globals_def Let_def)

lemma main_cycle_online:
  assumes "mqtt_connected g" and "loop_count g mod 10 \<noteq> 9"
  shows "main_cycle sample_cycle g =
     Some (g\<lparr>meter_data := (meter_data g)
                 \<lparr>flow_rate := 0x000104D2, forward_total := 0x0012D687, reverse_total := 0,
                  pressure := 300, temperature := 2500, status := 0x0024,
                  serial_number := 0x12345678, modbus_id := 1, baud_code := 1, valid := True\<rparr>,
              attrs_sent := True,
              loop_count := loop_count g + 1,
              trace := trace g @ [Log_status ''(Empty!)'']
                @ (if attrs_sent g then []
                   else [Mqtt_publish ATTRIBUTES_TOPIC
                           [(''firmwareVersion'', JString ''2.0.0''),
                            (''deviceModel'', JString ''BOVE-Modbus-Meter''),
                            (''serialNumber'', JHex8 0x12345678),
                            (''modbusId'', JUnsigned 1),
                            (''baudRate'', JString ''2400'')]])
                @ [Mqtt_publish TELEMETRY_TOPIC
                     [(''flowRate'', JUnsigned 66770),
                      (''forwardTotal'', JUnsigned 1234567),
                      (''reverseTotal'', JUnsigned 0),
                      (''pressure'', JUnsigned 300),
                      (''temperature'', JUnsigned 2500),
                      (''status'', JUnsigned 36),
                      (''leak'', JSigned 1),
                      (''empty'', JSigned 1),
                      (''lowBattery'', JSigned 1)],
                   Mqtt_input, Mqtt_live, Sleep 30000]\<rparr>)"
proof -
  have e: "net_events sample_cycle = []" "maintenance_events sample_cycle = []"
    "attributes_rc sample_cycle = 0" "telemetry_rc sample_cycle = 0"
    by (simp_all add: sample_cycle_def)
  show ?thesis
    unfolding main_cycle_def Let_def e
    using assms
    by (simp add: read_sample publish_cycle_def e send_attributes_def send_telemetry_def
        attributes_payload_def telemetry_payload_def baud_str_def mqtt_maintenance_def
        mqtt_input_def emit_trace status_summary_def MODBUS_READ_INTERVAL_SEC_def)
qed

text \<open>
  A boot that connects at once and two passes that read the sample reply: the attributes are
  published in the first pass, with the session established and with the serial number, bus
  address and baud rate of the reply, and not in the second.  A connected device that has
  read nothing yet would publish the serial number 0, the bus address 0 and "9600".
\<close>

theorem attributes_sent_at_most_once_witness:
  "main_init online_boot =
     Running (initial_globals
       \<lparr>mqtt_connected := True,
        trace := [Sleep 2000, Wifi_connect_request, Sleep 1000, Sleep 1000,
                  Mqtt_connect, Poll 500 1, Mqtt_input]\<rparr>)
   \<and> (\<exists>g. main_cycles [sample_cycle, sample_cycle]
          (initial_globals
             \<lparr>mqtt_connected := True,
              trace := [Sleep 2000, Wifi_connect_request, Sleep 1000, Sleep 1000,
                        Mqtt_connect, Poll 500 1, Mqtt_input]\<rparr>) = Some g
        \<and> loop_count g = 2
        \<and> attrs_sent g
        \<and> length (filter is_attributes_publish (trace g)) \<le> 1
        \<and> filter is_attributes_publish (trace g) =
            [Mqtt_publish ''v1/devices/me/attributes''
               [(''firmwareVersion'', JString ''2.0.0''),
                (''deviceModel'', JString ''BOVE-Modbus-Meter''),
                (''serialNumber'', JHex8 0x12345678),
                (''modbusId'', JUnsigned 1),
                (''baudRate'', JString ''2400'')]])
   \<and> mqtt_connected (connectivity_check sample_cycle
        (initial_globals
           \<lparr>mqtt_connected := True,
            trace := [Sleep 2000, Wifi_connect_request, Sleep 1000, Sleep 1000,
                      Mqtt_connect, Poll 500 1, Mqtt_input]\<rparr>))
   \<and> read_meter_data (meter_env sample_cycle)
        (meter_data (connectivity_check sample_cycle
          (initial_globals
             \<lparr>mqtt_connected := True,
              trace := [Sleep 2000, Wifi_connect_request, Sleep 1000, Sleep 1000,
                        Mqtt_connect, Poll 500 1, Mqtt_input]\<rparr>))) =
       Some (0, Meter_data_read_successfully,
             initial_meter_data
               \<lparr>flow_rate := 0x000104D2, forward_total := 0x0012D687, reverse_total := 0,
                pressure := 300, temperature := 2500, status := 0x0024,
                serial_number := 0x12345678, modbus_id := 1, baud_code := 1, valid := True\<rparr>)
   \<and> send_attributes 0 (initial_globals\<lparr>mqtt_connected := True\<rparr>) =
       (Ret 0,
        initial_globals
          \<lparr>mqtt_connected := True,
           trace := [Mqtt_publish ''v1/devices/me/attributes''
                       [(''firmwareVersion'', JString ''2.0.0''),
                        (''deviceModel'', JString ''BOVE-Modbus-Meter''),
                        (''serialNumber'', JHex8 0),
                        (''modbusId'', JUnsigned 0),
                        (''baudRate'', JString ''9600'')]]\<rparr>)
   \<and> baud_str 9 = ''unknown''"
proof -
  let ?g0 = "initial_globals
       \<lparr>mqtt_connected := True,
        trace := [Sleep 2000, Wifi_connect_request, Sleep 1000, Sleep 1000,
                  Mqtt_connect, Poll 500 1, Mqtt_input]\<rparr>"
  have i: "main_init online_boot = Running ?g0"
    by (rule main_init_online)
  have c1: "mqtt_connected ?g0" "loop_count ?g0 mod 10 \<noteq> 9" "\<not> attrs_sent ?g0"
    by (simp_all add: initial_globals_def)
  obtain g1 where g1: "main_cycle sample_cycle ?g0 = Some g1"
    and p1: "mqtt_connected g1" "loop_count g1 = 1" "attrs_sent g1"
      "filter is_attributes_publish (trace g1) =
         [Mqtt_publish ''v1/devices/me/attributes''
               [(''firmwareVersion'', JString ''2.0.0''),
                (''deviceModel'', JString ''BOVE-Modbus-Meter''),
                (''serialNumber'', JHex8 0x12345678),
                (''modbusId'', JUnsigned 1),
                (''baudRate'', JString ''2400'')]]"
    unfolding main_cycle_online [OF c1(1,2)]
    by (simp add: initial_globals_def ATTRIBUTES_TOPIC_def TELEMETRY_TOPIC_def)
  from p1 have c2: "mqtt_connected g1" "loop_count g1 mod 10 \<noteq> 9"
    by simp_all
  obtain g2 where g2: "main_cycle sample_cycle g1 = Some g2"
    and p2: "loop_count g2 = 2" "attrs_sent g2"
      "filter is_attributes_publish (trace g2) =
         [Mqtt_publish ''v1/devices/me/attributes''
               [(''firmwareVersion'', JString ''2.0.0''),
                (''deviceModel'', JString ''BOVE-Modbus-Meter''),
                (''serialNumber'', JHex8 0x12345678),
                (''modbusId'', JUnsigned 1),
                (''baudRate'', JString ''2400'')]]"
    unfolding main_cycle_online [OF c2]
    using p1 by (simp add: ATTRIBUTES_TOPIC_def TELEMETRY_TOPIC_def)
  have m: "main_cycles [sample_cycle, sample_cycle] ?g0 = Some g2"
    by (simp add: g1 g2)
  note run = attributes_sent_at_most_once [OF i, where envs = "[sample_cycle, sample_cycle]"
      and cenv = sample_cycle and s = ?g0 and s' = g1 and ret = 0
      and rlog = Meter_data_read_successfully and m = initial_meter_data
      and t = "initial_globals\<lparr>mqtt_connected := True\<rparr>" and rc = 0 and c = 9]
  from run [THEN conjunct1] obtain g where "main_cycles [sample_cycle, sample_cycle] ?g0 = Some g"
    and "length (filter is_attributes_publish (trace g)) \<le> 1"
    by (elim exE conjE)
  with m have t1: "length (filter is_attributes_publish (trace g2)) \<le> 1"
    by (simp only: option.inject)
  from run have "(9 :: u16) \<noteq> 0 \<and> (9 :: u16) \<noteq> 1 \<and> (9 :: u16) \<noteq> 2 \<and> (9 :: u16) \<noteq> 3
      \<longrightarrow> baud_str 9 = ''unknown''"
    by (elim conjE) assumption
  then have t2: "baud_str 9 = ''unknown''"
    by simp
  have cc: "connectivity_check sample_cycle ?g0 = ?g0\<lparr>loop_count := 1\<rparr>"
    by (simp add: connectivity_check_def sample_cycle_def initial_globals_def)
  have q: "mqtt_connected (connectivity_check sample_cycle ?g0)"
    unfolding cc by (simp add: initial_globals_def)
  have r: "read_meter_data (meter_env sample_cycle)
        (meter_data (connectivity_check sample_cycle ?g0)) =
       Some (0, Meter_data_read_successfully,
             initial_meter_data
               \<lparr>flow_rate := 0x000104D2, forward_total := 0x0012D687, reverse_total := 0,
                pressure := 300, temperature := 2500, status := 0x0024,
                serial_number := 0x12345678, modbus_id := 1, baud_code := 1, valid := True\<rparr>)"
    unfolding cc read_sample by (simp add: initial_globals_def)
  from m p2 t1 have ex: "\<exists>g. main_cycles [sample_cycle, sample_cycle] ?g0 = Some g
        \<and> loop_count g = 2
        \<and> attrs_sent g
        \<and> length (filter is_attributes_publish (trace g)) \<le> 1
        \<and> filter is_attributes_publish (trace g) =
            [Mqtt_publish ''v1/devices/me/attributes''
               [(''firmwareVersion'', JString ''2.0.0''),
                (''deviceModel'', JString ''BOVE-Modbus-Meter''),
                (''serialNumber'', JHex8 0x12345678),
                (''modbusId'', JUnsigned 1),
                (''baudRate'', JString ''2400'')]]"
    by (intro exI [of _ g2] conjI)
  from run have "mqtt_connected (initial_globals\<lparr>mqtt_connected := True\<rparr>) \<longrightarrow>
      send_attributes 0 (initial_globals\<lparr>mqtt_connected := True\<rparr>) =
        (Ret 0,
         initial_globals\<lparr>mqtt_connected := True\<rparr>
           \<lparr>trace := trace (initial_globals\<lparr>mqtt_connected := True\<rparr>) @
              [Mqtt_publish ATTRIBUTES_TOPIC
                 [(''firmwareVersion'', JString ''2.0.0''),
                  (''deviceModel'', JString ''BOVE-Modbus-Meter''),
                  (''serialNumber'',
                   JHex8 (serial_number (meter_data (initial_globals\<lparr>mqtt_connected := True\<rparr>)))),
                  (''modbusId'',
                   JUnsigned (unat (modbus_id (meter_data (initial_globals\<lparr>mqtt_connected := True\<rparr>))))),
                  (''baudRate'',
                   JString (baud_str (baud_code
                     (meter_data (initial_globals\<lparr>mqtt_connected := True\<rparr>)))))]]\<rparr>)"
    by (elim conjE) assumption
  then have sa: "send_attributes 0 (initial_globals\<lparr>mqtt_connected := True\<rparr>) =
       (Ret 0,
        initial_globals
          \<lparr>mqtt_connected := True,
           trace := [Mqtt_publish ''v1/devices/me/attributes''
                       [(''firmwareVersion'', JString ''2.0.0''),
                        (''deviceModel'', JString ''BOVE-Modbus-Meter''),
                        (''serialNumber'', JHex8 0),
                        (''modbusId'', JUnsigned 0),
                        (''baudRate'', JString ''9600'')]]\<rparr>)"
    by (simp add: initial_globals_def initial_meter_data_def baud_str_def ATTRIBUTES_TOPIC_def)
  from i ex q r sa t2 show ?thesis
    by (intro conjI)
qed

end
